theory Spec2Isabelle
  imports
    Complex_Main
    "HOL-Library.List_Lexorder"
    "HOL-Library.Char_ord"
    "HOL-Library.Product_Lexorder"
    "HOL-Library.Multiset"
begin

section \<open>Data model of \<^verbatim>\<open>meta_dataloader/TCGA.py\<close>\<close>

text \<open>
  Exceptions of the Python program are values: every function that can raise returns
  \<open>error + 'a\<close>, with \<open>Inl\<close> the exception. \<open>SystemExit\<close> is what \<^verbatim>\<open>sys.exit()\<close>
  raises, \<open>OSError\<close> stands for a file or directory that cannot be opened, and
  \<open>ParserError\<close> for a table that \<^verbatim>\<open>pd.read_csv\<close> cannot parse.
\<close>

datatype error = KeyError | ValueError | TypeError | IndexError | OSError | ParserError | SystemExit

definition and_then :: "error + 'a \<Rightarrow> ('a \<Rightarrow> error + 'b) \<Rightarrow> error + 'b" where
  "and_then r f = (case r of Inl e \<Rightarrow> Inl e | Inr a \<Rightarrow> f a)"

text \<open>
  A value of a clinical table is a text or a number, as \<^verbatim>\<open>pd.read_csv\<close> has parsed
  it; a cell is a value or missing (\<open>None\<close> is pandas' NaN). A data frame has a header
  and rows; a row is a dictionary from column name to value.
\<close>

datatype scalar = Str string | Num real

type_synonym cell = "scalar option"

record dataframe =
  df_columns :: "string list"
  df_rows :: "(string \<rightharpoonup> scalar) list"

text \<open>
  The type pandas gives a column: numeric (\<^verbatim>\<open>float64\<close>, or \<^verbatim>\<open>int64\<close> when nothing is
  missing) when no cell is a text, also when every cell is missing, and \<^verbatim>\<open>object\<close>
  otherwise.
\<close>

definition numeric_dtype :: "cell list \<Rightarrow> bool" where
  "numeric_dtype col = list_all (\<lambda>c. case c of Some (Str s) \<Rightarrow> False | _ \<Rightarrow> True) col"

text \<open>\<^verbatim>\<open>matrix[name]\<close>: the column, or \<open>KeyError\<close> when the header has no such name.\<close>

definition getitem :: "dataframe \<Rightarrow> string \<Rightarrow> error + cell list" where
  "getitem df name =
     (if name \<in> set (df_columns df) then Inr (map (\<lambda>r. r name) (df_rows df)) else Inl KeyError)"

text \<open>
  \<^verbatim>\<open>col.notnull()\<close>, \<^verbatim>\<open>col.isin(values)\<close> for a collection of strings (a number and
  a missing cell equal no string), and \<^verbatim>\<open>col[mask]\<close>.
\<close>

definition notnull :: "cell list \<Rightarrow> bool list" where
  "notnull col = map (\<lambda>c. c \<noteq> None) col"

definition isin :: "cell list \<Rightarrow> string set \<Rightarrow> bool list" where
  "isin col vals = map (\<lambda>c. case c of Some (Str s) \<Rightarrow> s \<in> vals | _ \<Rightarrow> False) col"

definition mask :: "'a list \<Rightarrow> bool list \<Rightarrow> 'a list" where
  "mask col m = map fst (filter snd (zip col m))"

text \<open>\<^verbatim>\<open>set(cells).intersection(strings)\<close>.\<close>

definition set_intersection :: "cell list \<Rightarrow> string list \<Rightarrow> string set" where
  "set_intersection cells strs = {s \<in> set strs. Some (Str s) \<in> set cells}"

text \<open>
  What iterating over a column yields, as dictionary keys. A present cell yields its
  value. The missing cells of an \<^verbatim>\<open>object\<close> column all hold one and the same
  \<^verbatim>\<open>nan\<close> object, which is a single key. A numeric column makes a new float for every
  cell while it is iterated, and a \<^verbatim>\<open>nan\<close> equals no other float, so each missing cell
  is a key of its own: \<open>FreshNaN i\<close> is the one made for position \<open>i\<close>.
\<close>

datatype key = Value scalar | NaN | FreshNaN nat

definition series_iter :: "bool \<Rightarrow> cell list \<Rightarrow> key list" where
  "series_iter numeric cells =
     (if numeric
      then map (\<lambda>(i, c). case c of Some a \<Rightarrow> Value a | None \<Rightarrow> FreshNaN i) (enumerate 0 cells)
      else map (\<lambda>c. case c of Some a \<Rightarrow> Value a | None \<Rightarrow> NaN) cells)"

text \<open>
  \<^verbatim>\<open>collections.Counter(iterable)\<close>: a dictionary in insertion order, as an association
  list from key to count.
\<close>

fun counter_add :: "'k \<Rightarrow> ('k \<times> nat) list \<Rightarrow> ('k \<times> nat) list" where
  "counter_add x [] = [(x, 1)]"
| "counter_add x ((k, n) # kvs) =
     (if k = x then (k, Suc n) # kvs else (k, n) # counter_add x kvs)"

definition Counter :: "'k list \<Rightarrow> ('k \<times> nat) list" where
  "Counter xs = fold counter_add xs []"

text \<open>\<^verbatim>\<open>xs.index(x)\<close>: the first position of \<open>x\<close>, or \<open>ValueError\<close>.\<close>

fun position :: "'a list \<Rightarrow> 'a \<Rightarrow> nat option" where
  "position [] x = None"
| "position (y # ys) x = (if y = x then Some 0 else map_option Suc (position ys x))"

definition index :: "'a list \<Rightarrow> 'a \<Rightarrow> error + nat" where
  "index xs x = (case position xs x of None \<Rightarrow> Inl ValueError | Some i \<Rightarrow> Inr i)"

text \<open>
  The files under \<^verbatim>\<open>data_dir\<close>. A string list file is its stripped lines, \<open>None\<close> when
  it cannot be opened. The expression store is the matrix \<^verbatim>\<open>dataset\<close> of
  \<^verbatim>\<open>TCGA_HiSeqV2.hdf5\<close> as a list of rows. The directory \<^verbatim>\<open>clinicalMatrices\<close> is
  its listing, in the order \<^verbatim>\<open>os.listdir\<close> gives it, each file name with what
  \<^verbatim>\<open>pd.read_csv\<close> makes of the file.
\<close>

record 'x data_dir =
  gene_ids_file :: "string list option"
  all_sample_ids_file :: "string list option"
  hdf_file :: "'x list list option"
  clinicalMatrices :: "(string \<times> (error + dataframe)) list option"

section \<open>Task discovery: \<^verbatim>\<open>get_TCGA_task_ids\<close>\<close>

text \<open>\<^verbatim>\<open>filename.split('_')[0]\<close>.\<close>

definition split_first :: "string \<Rightarrow> string" where
  "split_first filename = takeWhile (\<lambda>c. c \<noteq> CHR ''_'') filename"

text \<open>The body of the \<^verbatim>\<open>try\<close> block.\<close>

definition task_sample_ids :: "dataframe \<Rightarrow> string list \<Rightarrow> string \<Rightarrow> error + string set" where
  "task_sample_ids matrix all_ids task_variable =
     and_then (getitem matrix task_variable) (\<lambda>col.
       let filter_clinical_variable_present = notnull col in
       and_then (getitem matrix ''sampleID'') (\<lambda>ids.
         let potential_sample_ids = mask ids filter_clinical_variable_present in
         Inr (set_intersection potential_sample_ids all_ids)))"

text \<open>
  \<^verbatim>\<open>Counter(matrix[task_variable][matrix['sampleID'].isin(task_sample_ids)])\<close>; the
  selected cells keep the type of the column.
\<close>

definition num_samples_per_label ::
    "dataframe \<Rightarrow> string \<Rightarrow> string set \<Rightarrow> error + (key \<times> nat) list" where
  "num_samples_per_label matrix task_variable sids =
     and_then (getitem matrix task_variable) (\<lambda>col.
     and_then (getitem matrix ''sampleID'') (\<lambda>ids.
       Inr (Counter (series_iter (numeric_dtype col) (mask col (isin ids sids))))))"

text \<open>
  One round of the loop over the task variables: \<open>KeyError\<close> in the \<^verbatim>\<open>try\<close> block
  is \<^verbatim>\<open>continue\<close>; otherwise the task id is appended when both tests pass.
\<close>

definition loop_body ::
    "string \<Rightarrow> dataframe \<Rightarrow> string list \<Rightarrow> int \<Rightarrow> string \<Rightarrow> (string \<times> string) list
      \<Rightarrow> error + (string \<times> string) list" where
  "loop_body filename matrix all_ids min_samples_per_class task_variable task_ids =
     (case task_sample_ids matrix all_ids task_variable of
        Inl KeyError \<Rightarrow> Inr task_ids
      | Inl e \<Rightarrow> Inl e
      | Inr sids \<Rightarrow>
          let task_id = (task_variable, split_first filename) in
          and_then (num_samples_per_label matrix task_variable sids) (\<lambda>counts.
            let num_samples_per_class_is_in_range =
                  list_all (\<lambda>num_samples. int num_samples > min_samples_per_class) (map snd counts);
                is_not_one_class = length counts > 1
            in Inr (if num_samples_per_class_is_in_range \<and> is_not_one_class
                    then task_ids @ [task_id] else task_ids)))"

fun task_variables_loop ::
    "string \<Rightarrow> dataframe \<Rightarrow> string list \<Rightarrow> int \<Rightarrow> string list \<Rightarrow> (string \<times> string) list
      \<Rightarrow> error + (string \<times> string) list" where
  "task_variables_loop filename matrix all_ids m [] task_ids = Inr task_ids"
| "task_variables_loop filename matrix all_ids m (task_variable # rest) task_ids =
     (case loop_body filename matrix all_ids m task_variable task_ids of
        Inl e \<Rightarrow> Inl e
      | Inr task_ids' \<Rightarrow> task_variables_loop filename matrix all_ids m rest task_ids')"

text \<open>The loop over the directory listing; \<^verbatim>\<open>pd.read_csv\<close> is outside any \<^verbatim>\<open>try\<close>.\<close>

fun listdir_loop ::
    "(string \<times> (error + dataframe)) list \<Rightarrow> string list \<Rightarrow> int \<Rightarrow> string list
      \<Rightarrow> (string \<times> string) list \<Rightarrow> error + (string \<times> string) list" where
  "listdir_loop [] all_ids m task_variables task_ids = Inr task_ids"
| "listdir_loop ((filename, csv) # rest) all_ids m task_variables task_ids =
     (case csv of
        Inl e \<Rightarrow> Inl e
      | Inr matrix \<Rightarrow>
          (case task_variables_loop filename matrix all_ids m task_variables task_ids of
             Inl e \<Rightarrow> Inl e
           | Inr task_ids' \<Rightarrow> listdir_loop rest all_ids m task_variables task_ids'))"

text \<open>
  \<^verbatim>\<open>get_TCGA_task_ids(data_dir, min_samples_per_class, task_variables_file)\<close>; the
  task variables file is its stripped lines, \<open>None\<close> when it cannot be opened.
\<close>

definition get_TCGA_task_ids ::
    "'x data_dir \<Rightarrow> int \<Rightarrow> string list option \<Rightarrow> error + (string \<times> string) list" where
  "get_TCGA_task_ids data_dir min_samples_per_class task_variables_file =
     (case all_sample_ids_file data_dir of
        None \<Rightarrow> Inl SystemExit
      | Some all_ids \<Rightarrow>
          (case task_variables_file of
             None \<Rightarrow> Inl OSError
           | Some task_variables \<Rightarrow>
               (case clinicalMatrices data_dir of
                  None \<Rightarrow> Inl OSError
                | Some listing \<Rightarrow>
                    listdir_loop listing all_ids min_samples_per_class task_variables [])))"

section \<open>Task materialization: \<^verbatim>\<open>TCGATask.__init__\<close>\<close>

text \<open>
  The fields of a task. The transforms, \<^verbatim>\<open>input_size\<close> and the optional gene symbol
  map do not bear on the rows and labels of a task and are left out.
\<close>

record 'x task =
  task_id :: "string \<times> string"
  gene_ids :: "string list"
  all_sample_ids :: "string list"
  labels :: "int list"
  categories :: "scalar list"
  num_classes :: nat
  samples :: "'x list list"

text \<open>\<^verbatim>\<open>pd.read_csv\<close> of one file of \<^verbatim>\<open>clinicalMatrices\<close>.\<close>

definition read_csv :: "'x data_dir \<Rightarrow> string \<Rightarrow> error + dataframe" where
  "read_csv data_dir filename =
     (case clinicalMatrices data_dir of
        None \<Rightarrow> Inl OSError
      | Some listing \<Rightarrow>
          (case map_of listing filename of None \<Rightarrow> Inl OSError | Some csv \<Rightarrow> csv))"

text \<open>
  \<^verbatim>\<open>col.astype('category').cat\<close>: the categories are the distinct present values
  in sorted order, the code of a value is its position among them, and the code
  of a missing cell is \<open>-1\<close>. Values are sorted as pandas sorts them: numbers by size,
  texts lexicographically, and numbers before texts in a column that holds both.
\<close>

fun scalar_key :: "scalar \<Rightarrow> bool \<times> real \<times> string" where
  "scalar_key (Num x) = (False, x, [])"
| "scalar_key (Str s) = (True, 0, s)"

definition cat_categories :: "cell list \<Rightarrow> scalar list" where
  "cat_categories col = sort_key scalar_key (remdups (List.map_filter (\<lambda>c. c) col))"

definition cat_codes :: "cell list \<Rightarrow> int list" where
  "cat_codes col =
     map (\<lambda>c. case c of
                None \<Rightarrow> - 1
              | Some a \<Rightarrow> (case position (cat_categories col) a of
                            None \<Rightarrow> - 1 | Some i \<Rightarrow> int i)) col"

text \<open>\<^verbatim>\<open>[all_sample_ids.index(sample_id) for sample_id in sample_ids]\<close>.\<close>

fun indices_of :: "string list \<Rightarrow> cell list \<Rightarrow> error + nat list" where
  "indices_of all_ids [] = Inr []"
| "indices_of all_ids (sample_id # rest) =
     (case index (map (\<lambda>s. Some (Str s)) all_ids) sample_id of
        Inl e \<Rightarrow> Inl e
      | Inr i \<Rightarrow> (case indices_of all_ids rest of Inl e \<Rightarrow> Inl e | Inr js \<Rightarrow> Inr (i # js)))"

text \<open>
  \<^verbatim>\<open>a, b = zip(*sorted(zip(a, b)))\<close>: the pairs are sorted as tuples; unpacking
  the transposed list into two names raises \<open>ValueError\<close> when there is no pair.
\<close>

definition unzip_sorted :: "(nat \<times> int) list \<Rightarrow> error + (nat list \<times> int list)" where
  "unzip_sorted ps =
     (case sort ps of [] \<Rightarrow> Inl ValueError | q # qs \<Rightarrow> Inr (map fst (q # qs), map snd (q # qs)))"

text \<open>
  The two reads of the expression store. \<^verbatim>\<open>data[np.array(idx), :]\<close> on the
  in-memory array takes the rows in the order given. \<^verbatim>\<open>f['dataset'][idx, :]\<close>
  on the open HDF5 file does the same, but h5py accepts an index list only in
  strictly increasing order.
\<close>

definition numpy_take :: "'x list list \<Rightarrow> nat list \<Rightarrow> error + 'x list list" where
  "numpy_take arr idx =
     (if list_all (\<lambda>i. i < length arr) idx then Inr (map (\<lambda>i. arr ! i) idx) else Inl IndexError)"

definition h5py_take :: "'x list list \<Rightarrow> nat list \<Rightarrow> error + 'x list list" where
  "h5py_take dset idx =
     (if \<not> list_all (\<lambda>i. i < length dset) idx then Inl IndexError
      else if \<not> sorted_wrt (<) idx then Inl TypeError
      else Inr (map (\<lambda>i. dset ! i) idx))"

text \<open>
  \<^verbatim>\<open>TCGATask(task_id, data_dir, preloaded=preloaded)\<close>, with \<open>preloaded\<close> either
  \<open>None\<close> or the triple (all sample ids, gene ids, expression matrix).
\<close>

definition TCGATask_init ::
    "string \<times> string \<Rightarrow> 'x data_dir \<Rightarrow> (string list \<times> string list \<times> 'x list list) option
      \<Rightarrow> error + 'x task" where
  "TCGATask_init tid data_dir preloaded =
     (case tid of (task_variable, cancer) \<Rightarrow>
      and_then
        (case preloaded of
           None \<Rightarrow>
             (case (gene_ids_file data_dir, all_sample_ids_file data_dir) of
                (Some g, Some a) \<Rightarrow> Inr (a, g)
              | _ \<Rightarrow> Inl ValueError)
         | Some (a, g, d) \<Rightarrow> Inr (a, g))
        (\<lambda>(all_ids, genes).
      and_then (read_csv data_dir (cancer @ ''_clinicalMatrix'')) (\<lambda>matrix.
      and_then (getitem matrix ''sampleID'') (\<lambda>ids.
      and_then (getitem matrix task_variable) (\<lambda>attribute.
        let available_elements = map2 (\<and>) (notnull attribute) (isin ids (set all_ids));
            sample_ids = mask ids available_elements;
            filtered_attribute = mask attribute available_elements
        in
        and_then (indices_of all_ids sample_ids) (\<lambda>indices_to_load.
        and_then (unzip_sorted (zip indices_to_load (cat_codes filtered_attribute)))
          (\<lambda>(indices_sorted, lbls).
        and_then
          (case preloaded of
             None \<Rightarrow>
               (case hdf_file data_dir of
                  None \<Rightarrow> Inl OSError
                | Some dset \<Rightarrow> h5py_take dset indices_sorted)
           | Some (a, g, d) \<Rightarrow> numpy_take d indices_sorted)
          (\<lambda>rows.
            Inr \<lparr> task_id = tid, gene_ids = genes, all_sample_ids = all_ids,
                  labels = lbls, categories = cat_categories filtered_attribute,
                  num_classes = length (cat_categories filtered_attribute),
                  samples = rows \<rparr>))))))))"

text \<open>\<^verbatim>\<open>TCGATask.__len__\<close>: \<^verbatim>\<open>self._samples.shape[0]\<close>.\<close>

definition TCGATask_len :: "'x task \<Rightarrow> nat" where
  "TCGATask_len t = length (samples t)"

section \<open>Reference notions for the properties\<close>

text \<open>
  The acceptance rule in the words of the specification. The sample ids of the
  intersection are those of the global list that have a row with a present value; the
  rows counted are all rows whose sample id is in the intersection; a category is a
  distinct observed value of these rows. A task is accepted when every category is
  counted more than \<open>min_samples_per_class\<close> times and there are at least two.
\<close>

definition intersected_ids :: "dataframe \<Rightarrow> string list \<Rightarrow> string \<Rightarrow> string set" where
  "intersected_ids m all_ids v =
     {s \<in> set all_ids. \<exists>r \<in> set (df_rows m). r ''sampleID'' = Some (Str s) \<and> r v \<noteq> None}"

definition counted_cells :: "dataframe \<Rightarrow> string list \<Rightarrow> string \<Rightarrow> cell list" where
  "counted_cells m all_ids v =
     map (\<lambda>r. r v)
       (filter (\<lambda>r. case r ''sampleID'' of
                       Some (Str s) \<Rightarrow> s \<in> intersected_ids m all_ids v
                     | _ \<Rightarrow> False)
          (df_rows m))"

definition observed_values :: "dataframe \<Rightarrow> string list \<Rightarrow> string \<Rightarrow> scalar list" where
  "observed_values m all_ids v = List.map_filter (\<lambda>c. c) (counted_cells m all_ids v)"

definition spec_accepts :: "dataframe \<Rightarrow> string list \<Rightarrow> int \<Rightarrow> string \<Rightarrow> bool" where
  "spec_accepts m all_ids mn v \<longleftrightarrow>
     list_all (\<lambda>a. mn < int (count_list (observed_values m all_ids v) a))
       (observed_values m all_ids v)
     \<and> 2 \<le> card (set (observed_values m all_ids v))"

text \<open>
  What one round of the loop of discovery tests, in closed form: the columns exist,
  and the counter over the keys of the counted cells passes both tests. The keys are
  those the iteration yields, the missing cells among them.
\<close>

definition counted_keys :: "dataframe \<Rightarrow> string list \<Rightarrow> string \<Rightarrow> key list" where
  "counted_keys m all_ids v =
     series_iter (numeric_dtype (map (\<lambda>r. r v) (df_rows m))) (counted_cells m all_ids v)"

definition table_accepts :: "dataframe \<Rightarrow> string list \<Rightarrow> int \<Rightarrow> string \<Rightarrow> bool" where
  "table_accepts m all_ids mn v \<longleftrightarrow>
     v \<in> set (df_columns m) \<and> ''sampleID'' \<in> set (df_columns m)
     \<and> list_all (\<lambda>n. mn < int n) (map snd (Counter (counted_keys m all_ids v)))
     \<and> 1 < length (Counter (counted_keys m all_ids v))"

text \<open>The task ids one file of the directory contributes to the catalog.\<close>

definition table_tasks ::
    "string list \<Rightarrow> int \<Rightarrow> string list \<Rightarrow> string \<times> (error + dataframe) \<Rightarrow> (string \<times> string) list" where
  "table_tasks all_ids mn tvs =
     (\<lambda>(f, csv). case csv of
        Inl e \<Rightarrow> []
      | Inr m \<Rightarrow> map (\<lambda>v. (v, split_first f)) (filter (table_accepts m all_ids mn) tvs))"

text \<open>
  The rows a task retains: the value of the variable is present and the sample id
  is in the global list.
\<close>

definition retained_rows :: "dataframe \<Rightarrow> string list \<Rightarrow> string \<Rightarrow> (string \<rightharpoonup> scalar) list" where
  "retained_rows m all_ids v =
     filter (\<lambda>r. r v \<noteq> None \<and> (case r ''sampleID'' of Some (Str s) \<Rightarrow> s \<in> set all_ids | _ \<Rightarrow> False))
       (df_rows m)"

text \<open>
  The expression matrix a task reads its rows from: the preloaded array when there is
  one, the dataset of the HDF5 file otherwise.
\<close>

definition expression_store ::
    "'x data_dir \<Rightarrow> (string list \<times> string list \<times> 'x list list) option \<Rightarrow> 'x list list option" where
  "expression_store data_dir preloaded =
     (case preloaded of None \<Rightarrow> hdf_file data_dir | Some (a, g, d) \<Rightarrow> Some d)"

text \<open>
  The global sample id list a task works with: that of the preloaded triple when there
  is one, the lines of the sample id file otherwise.
\<close>

definition sample_id_list ::
    "'x data_dir \<Rightarrow> (string list \<times> string list \<times> 'x list list) option \<Rightarrow> string list option" where
  "sample_id_list data_dir preloaded =
     (case preloaded of None \<Rightarrow> all_sample_ids_file data_dir | Some (a, g, d) \<Rightarrow> Some a)"

section \<open>Example data\<close>

text \<open>
  A directory with five samples and three clinical tables. In \<open>CANCER\<close> the sample
  \<open>s9\<close> has no expression row, \<open>s5\<close> has no value of \<open>sex\<close>, and the column \<open>stage\<close>
  is empty. In \<open>DUP\<close> and \<open>ONE\<close> a sample id occurs on several rows.
\<close>

definition ex_table :: dataframe where
  "ex_table = \<lparr> df_columns = [''sampleID'', ''sex'', ''stage''],
     df_rows = [[''sampleID'' \<mapsto> Str ''s3'', ''sex'' \<mapsto> Str ''M''],
                [''sampleID'' \<mapsto> Str ''s1'', ''sex'' \<mapsto> Str ''F''],
                [''sampleID'' \<mapsto> Str ''s9'', ''sex'' \<mapsto> Str ''F''],
                [''sampleID'' \<mapsto> Str ''s4'', ''sex'' \<mapsto> Str ''M''],
                [''sampleID'' \<mapsto> Str ''s5''],
                [''sampleID'' \<mapsto> Str ''s2'', ''sex'' \<mapsto> Str ''F'']] \<rparr>"

definition dup_table :: dataframe where
  "dup_table = \<lparr> df_columns = [''sampleID'', ''sex''],
     df_rows = [[''sampleID'' \<mapsto> Str ''s1'', ''sex'' \<mapsto> Str ''M''],
                [''sampleID'' \<mapsto> Str ''s1'', ''sex'' \<mapsto> Str ''F''],
                [''sampleID'' \<mapsto> Str ''s2'', ''sex'' \<mapsto> Str ''M'']] \<rparr>"

definition one_table :: dataframe where
  "one_table = \<lparr> df_columns = [''sampleID'', ''sex''],
     df_rows = [[''sampleID'' \<mapsto> Str ''s1'', ''sex'' \<mapsto> Str ''M''],
                [''sampleID'' \<mapsto> Str ''s1''],
                [''sampleID'' \<mapsto> Str ''s2'', ''sex'' \<mapsto> Str ''M'']] \<rparr>"

definition ex_sample_ids :: "string list" where
  "ex_sample_ids = [''s1'', ''s2'', ''s3'', ''s4'', ''s5'']"

definition ex_matrix :: "int list list" where
  "ex_matrix = [[10, 11], [20, 21], [30, 31], [40, 41], [50, 51]]"

definition ex_listing :: "(string \<times> (error + dataframe)) list" where
  "ex_listing = [(''CANCER_clinicalMatrix'', Inr ex_table),
                 (''DUP_clinicalMatrix'', Inr dup_table),
                 (''ONE_clinicalMatrix'', Inr one_table)]"

definition ex_dir :: "int data_dir" where
  "ex_dir = \<lparr> gene_ids_file = Some [''g1'', ''g2''],
     all_sample_ids_file = Some ex_sample_ids,
     hdf_file = Some ex_matrix,
     clinicalMatrices = Some ex_listing \<rparr>"

definition ex_preloaded :: "(string list \<times> string list \<times> int list list) option" where
  "ex_preloaded = Some (ex_sample_ids, [''g1'', ''g2''], ex_matrix)"

text \<open>The task of the variable \<open>sex\<close> and the cancer type \<open>CANCER\<close>.\<close>

definition ex_task :: "int task" where
  "ex_task = \<lparr> task_id = (''sex'', ''CANCER''), gene_ids = [''g1'', ''g2''],
     all_sample_ids = ex_sample_ids,
     labels = [0, 0, 1, 1], categories = [Str ''F'', Str ''M''], num_classes = 2,
     samples = [[10, 11], [20, 21], [30, 31], [40, 41]] \<rparr>"

text \<open>The task of the variable \<open>sex\<close> and the cancer type \<open>DUP\<close>, as the preloaded path builds it.\<close>

definition dup_task :: "int task" where
  "dup_task = \<lparr> task_id = (''sex'', ''DUP''), gene_ids = [''g1'', ''g2''],
     all_sample_ids = ex_sample_ids,
     labels = [0, 1, 1], categories = [Str ''F'', Str ''M''], num_classes = 2,
     samples = [[10, 11], [10, 11], [20, 21]] \<rparr>"

text \<open>
  The task of the variable \<open>sex\<close> and the cancer type \<open>ONE\<close>: it has a single class, and
  no catalog with a threshold of one or more lists it.
\<close>

definition one_task :: "int task" where
  "one_task = \<lparr> task_id = (''sex'', ''ONE''), gene_ids = [''g1'', ''g2''],
     all_sample_ids = ex_sample_ids,
     labels = [0, 0], categories = [Str ''M''], num_classes = 1,
     samples = [[10, 11], [20, 21]] \<rparr>"



definition ex_variables :: "string list" where
  "ex_variables = [''age'', ''sex'', ''stage'']"

text \<open>
  A directory whose table has a numeric column: the grades 10 and 9, two rows each,
  and two more rows of the sample \<open>s1\<close> without a grade. In the file the grades are the
  texts \<open>10\<close> and \<open>9\<close>.
\<close>

definition num_table :: dataframe where
  "num_table = \<lparr> df_columns = [''sampleID'', ''grade''],
     df_rows = [[''sampleID'' \<mapsto> Str ''s1'', ''grade'' \<mapsto> Num 10],
                [''sampleID'' \<mapsto> Str ''s2'', ''grade'' \<mapsto> Num 9],
                [''sampleID'' \<mapsto> Str ''s3'', ''grade'' \<mapsto> Num 10],
                [''sampleID'' \<mapsto> Str ''s4'', ''grade'' \<mapsto> Num 9],
                [''sampleID'' \<mapsto> Str ''s1''],
                [''sampleID'' \<mapsto> Str ''s1'']] \<rparr>"

definition num_dir :: "int data_dir" where
  "num_dir = ex_dir \<lparr> clinicalMatrices := Some [(''NUM_clinicalMatrix'', Inr num_table)] \<rparr>"

definition num_task :: "int task" where
  "num_task = \<lparr> task_id = (''grade'', ''NUM''), gene_ids = [''g1'', ''g2''],
     all_sample_ids = ex_sample_ids,
     labels = [1, 0, 1, 0], categories = [Num 9, Num 10], num_classes = 2,
     samples = [[10, 11], [20, 21], [30, 31], [40, 41]] \<rparr>"

section \<open>Auxiliary facts\<close>

subsection \<open>Errors, masks and counters\<close>

lemma and_then_Inr [simp]: "and_then (Inr a) f = f a"
  by (simp add: and_then_def)

lemma and_then_Inl [simp]: "and_then (Inl e) f = Inl e"
  by (simp add: and_then_def)

lemma mask_map: "mask (map f xs) (map g xs) = map f (filter g xs)"
  by (induction xs) (simp_all add: mask_def)

lemma counter_add_keys: "fst ` set (counter_add x kvs) = insert x (fst ` set kvs)"
  by (induction x kvs rule: counter_add.induct) auto

lemma counter_add_distinct:
  "distinct (map fst kvs) \<Longrightarrow> distinct (map fst (counter_add x kvs))"
  by (induction x kvs rule: counter_add.induct) (auto simp: counter_add_keys)

lemma counter_add_map_of:
  "map_of (counter_add x kvs) =
     (map_of kvs)(x \<mapsto> (case map_of kvs x of None \<Rightarrow> 1 | Some n \<Rightarrow> Suc n))"
  by (induction x kvs rule: counter_add.induct) (auto simp: fun_eq_iff)

lemma fold_counter_add_distinct:
  "distinct (map fst acc) \<Longrightarrow> distinct (map fst (fold counter_add xs acc))"
  by (induction xs arbitrary: acc) (simp_all add: counter_add_distinct)

lemma fold_counter_add_keys:
  "fst ` set (fold counter_add xs acc) = set xs \<union> fst ` set acc"
  by (induction xs arbitrary: acc) (auto simp: counter_add_keys)

lemma fold_counter_add_map_of:
  "map_of (fold counter_add xs acc) k =
     (if k \<in> set xs \<or> k \<in> fst ` set acc
      then Some (count_list xs k + (case map_of acc k of None \<Rightarrow> 0 | Some n \<Rightarrow> n))
      else None)"
proof (induction xs arbitrary: acc)
  case Nil
  show ?case
  proof (cases "map_of acc k")
    case None
    then show ?thesis by (simp add: map_of_eq_None_iff)
  next
    case (Some n)
    then have "(k, n) \<in> set acc" by (rule map_of_SomeD)
    then have "k \<in> fst ` set acc" by force
    with Some show ?thesis by simp
  qed
next
  case (Cons x xs)
  have "map_of (fold counter_add (x # xs) acc) k = map_of (fold counter_add xs (counter_add x acc)) k"
    by simp
  also have "\<dots> = (if k \<in> set xs \<or> k \<in> insert x (fst ` set acc)
      then Some (count_list xs k + (case map_of (counter_add x acc) k of None \<Rightarrow> 0 | Some n \<Rightarrow> n))
      else None)"
    by (simp only: Cons.IH counter_add_keys)
  also have "\<dots> = (if k \<in> set (x # xs) \<or> k \<in> fst ` set acc
      then Some (count_list (x # xs) k + (case map_of acc k of None \<Rightarrow> 0 | Some n \<Rightarrow> n))
      else None)"
    by (cases "k = x"; cases "map_of acc k") (simp_all add: counter_add_map_of)
  finally show ?case .
qed

lemma Counter_distinct: "distinct (map fst (Counter xs))"
  by (simp add: Counter_def fold_counter_add_distinct)

lemma Counter_keys: "fst ` set (Counter xs) = set xs"
  by (simp add: Counter_def fold_counter_add_keys)

lemma Counter_map_of:
  "map_of (Counter xs) k = (if k \<in> set xs then Some (count_list xs k) else None)"
  by (simp add: Counter_def fold_counter_add_map_of)

lemma Counter_mem: "(k, n) \<in> set (Counter xs) \<longleftrightarrow> k \<in> set xs \<and> n = count_list xs k"
proof -
  have "(k, n) \<in> set (Counter xs) \<longleftrightarrow> map_of (Counter xs) k = Some n"
    by (simp only: map_of_eq_Some_iff [OF Counter_distinct])
  also have "\<dots> \<longleftrightarrow> k \<in> set xs \<and> n = count_list xs k"
    by (auto simp: Counter_map_of)
  finally show ?thesis .
qed

lemma Counter_length: "length (Counter xs) = card (set xs)"
proof -
  have "length (Counter xs) = length (map fst (Counter xs))" by simp
  also have "\<dots> = card (set (map fst (Counter xs)))"
    using Counter_distinct [of xs] by (simp only: distinct_card)
  also have "\<dots> = card (set xs)" by (simp add: Counter_keys)
  finally show ?thesis .
qed

lemma Counter_values:
  "list_all P (map snd (Counter xs)) \<longleftrightarrow> (\<forall>k \<in> set xs. P (count_list xs k))"
proof -
  have "list_all P (map snd (Counter xs)) \<longleftrightarrow> (\<forall>kn \<in> set (Counter xs). P (snd kn))"
    by (simp add: list_all_iff)
  also have "\<dots> \<longleftrightarrow> (\<forall>k \<in> set xs. P (count_list xs k))"
  proof
    assume h: "\<forall>kn \<in> set (Counter xs). P (snd kn)"
    show "\<forall>k \<in> set xs. P (count_list xs k)"
    proof
      fix k assume "k \<in> set xs"
      then have "(k, count_list xs k) \<in> set (Counter xs)" by (simp add: Counter_mem)
      with h show "P (count_list xs k)" by force
    qed
  next
    assume "\<forall>k \<in> set xs. P (count_list xs k)"
    then show "\<forall>kn \<in> set (Counter xs). P (snd kn)" by (auto simp: Counter_mem)
  qed
  finally show ?thesis .
qed

subsection \<open>Discovery\<close>

lemma getitem_Inr: "name \<in> set (df_columns m) \<Longrightarrow> getitem m name = Inr (map (\<lambda>r. r name) (df_rows m))"
  by (simp add: getitem_def)

lemma getitem_Inl: "name \<notin> set (df_columns m) \<Longrightarrow> getitem m name = Inl KeyError"
  by (simp add: getitem_def)

lemma notnull_map: "notnull (map f xs) = map (\<lambda>x. f x \<noteq> None) xs"
  by (simp add: notnull_def)

lemma isin_map:
  "isin (map f xs) S = map (\<lambda>x. case f x of Some (Str s) \<Rightarrow> s \<in> S | _ \<Rightarrow> False) xs"
  by (simp add: isin_def)

lemma task_sample_ids_KeyError:
  "\<not> (v \<in> set (df_columns m) \<and> ''sampleID'' \<in> set (df_columns m))
    \<Longrightarrow> task_sample_ids m all_ids v = Inl KeyError"
  by (auto simp: task_sample_ids_def getitem_def)

lemma task_sample_ids_eq:
  assumes "v \<in> set (df_columns m)" and "''sampleID'' \<in> set (df_columns m)"
  shows "task_sample_ids m all_ids v = Inr (intersected_ids m all_ids v)"
proof -
  have "set_intersection (mask (map (\<lambda>r. r ''sampleID'') (df_rows m)) (map (\<lambda>r. r v \<noteq> None) (df_rows m))) all_ids
      = intersected_ids m all_ids v"
    by (auto simp: set_intersection_def intersected_ids_def mask_map image_iff Bex_def)
  with assms show ?thesis
    by (simp add: task_sample_ids_def getitem_Inr notnull_map)
qed

lemma num_samples_per_label_eq:
  assumes "v \<in> set (df_columns m)" and "''sampleID'' \<in> set (df_columns m)"
  shows "num_samples_per_label m v (intersected_ids m all_ids v)
           = Inr (Counter (counted_keys m all_ids v))"
  using assms
  by (simp add: num_samples_per_label_def getitem_Inr isin_map mask_map counted_keys_def
      counted_cells_def)

lemma loop_body_eq:
  "loop_body f m all_ids mn v acc =
     Inr (if table_accepts m all_ids mn v then acc @ [(v, split_first f)] else acc)"
proof (cases "v \<in> set (df_columns m) \<and> ''sampleID'' \<in> set (df_columns m)")
  case False
  then have "task_sample_ids m all_ids v = Inl KeyError"
    by (rule task_sample_ids_KeyError)
  with False show ?thesis
    by (auto simp: loop_body_def table_accepts_def)
next
  case True
  then have a: "task_sample_ids m all_ids v = Inr (intersected_ids m all_ids v)"
    and b: "num_samples_per_label m v (intersected_ids m all_ids v)
           = Inr (Counter (counted_keys m all_ids v))"
    by (simp_all add: task_sample_ids_eq num_samples_per_label_eq)
  show ?thesis
    using True
    by (simp add: loop_body_def a b table_accepts_def)
qed

lemma task_variables_loop_eq:
  "task_variables_loop f m all_ids mn tvs acc =
     Inr (acc @ map (\<lambda>v. (v, split_first f)) (filter (table_accepts m all_ids mn) tvs))"
  by (induction tvs arbitrary: acc) (simp_all add: loop_body_eq)

lemma listdir_loop_Inr:
  "list_all (\<lambda>(f, csv). \<not> isl csv) listing \<Longrightarrow>
     listdir_loop listing all_ids mn tvs acc =
       Inr (acc @ concat (map (table_tasks all_ids mn tvs) listing))"
proof (induction listing arbitrary: acc)
  case Nil
  show ?case by simp
next
  case (Cons a listing)
  obtain f csv where a: "a = (f, csv)" by (cases a)
  with Cons.prems obtain m where m: "csv = Inr m" by (cases csv) auto
  from Cons.prems have "list_all (\<lambda>(f, csv). \<not> isl csv) listing" by simp
  then show ?case
    by (simp add: a m Cons.IH task_variables_loop_eq table_tasks_def)
qed

lemma listdir_loop_Inl:
  "\<not> list_all (\<lambda>(f, csv). \<not> isl csv) listing \<Longrightarrow>
     isl (listdir_loop listing all_ids mn tvs acc)"
proof (induction listing arbitrary: acc)
  case Nil
  then show ?case by simp
next
  case (Cons a listing)
  obtain f csv where a: "a = (f, csv)" by (cases a)
  show ?case
  proof (cases csv)
    case (Inl e)
    then show ?thesis by (simp add: a)
  next
    case (Inr m)
    with Cons.prems a have "\<not> list_all (\<lambda>(f, csv). \<not> isl csv) listing" by simp
    then show ?thesis
      by (simp add: a Inr task_variables_loop_eq Cons.IH)
  qed
qed

lemma get_TCGA_task_ids_Inr:
  assumes "all_sample_ids_file dd = Some all_ids"
    and "clinicalMatrices dd = Some listing"
    and "list_all (\<lambda>(f, csv). \<not> isl csv) listing"
  shows "get_TCGA_task_ids dd mn (Some tvs) = Inr (concat (map (table_tasks all_ids mn tvs) listing))"
  using assms by (simp add: get_TCGA_task_ids_def listdir_loop_Inr)

lemma get_TCGA_task_ids_isl:
  "isl (get_TCGA_task_ids dd mn tvf) \<longleftrightarrow>
     all_sample_ids_file dd = None \<or> tvf = None \<or> clinicalMatrices dd = None \<or>
     (\<exists>listing. clinicalMatrices dd = Some listing \<and> \<not> list_all (\<lambda>(f, csv). \<not> isl csv) listing)"
proof (cases "all_sample_ids_file dd")
  case None
  then show ?thesis by (simp add: get_TCGA_task_ids_def)
next
  case a: (Some all_ids)
  show ?thesis
  proof (cases tvf)
    case None
    then show ?thesis by (simp add: get_TCGA_task_ids_def a)
  next
    case t: (Some tvs)
    show ?thesis
    proof (cases "clinicalMatrices dd")
      case None
      then show ?thesis by (simp add: get_TCGA_task_ids_def a t)
    next
      case l: (Some listing)
      show ?thesis
      proof (cases "list_all (\<lambda>(f, csv). \<not> isl csv) listing")
        case True
        then show ?thesis
          by (simp add: get_TCGA_task_ids_def a t l listdir_loop_Inr)
      next
        case False
        then show ?thesis
          by (simp add: get_TCGA_task_ids_def a t l listdir_loop_Inl)
      qed
    qed
  qed
qed

lemma table_tasks_mem:
  "(v, c) \<in> set (table_tasks all_ids mn tvs (f, csv)) \<longleftrightarrow>
     v \<in> set tvs \<and> (\<exists>m. csv = Inr m \<and> split_first f = c \<and> table_accepts m all_ids mn v)"
  by (cases csv) (auto simp: table_tasks_def)

lemma catalog_mem:
  assumes "get_TCGA_task_ids dd mn (Some tvs) = Inr ids"
    and "all_sample_ids_file dd = Some all_ids"
    and "clinicalMatrices dd = Some listing"
  shows "(v, c) \<in> set ids \<longleftrightarrow>
     v \<in> set tvs \<and> (\<exists>(f, csv) \<in> set listing. \<exists>m. csv = Inr m \<and> split_first f = c \<and>
        table_accepts m all_ids mn v)"
proof -
  have "\<not> isl (get_TCGA_task_ids dd mn (Some tvs))"
    using assms(1) by simp
  then have ok: "list_all (\<lambda>(f, csv). \<not> isl csv) listing"
    using assms(2,3) by (simp add: get_TCGA_task_ids_isl)
  have ids: "ids = concat (map (table_tasks all_ids mn tvs) listing)"
    using get_TCGA_task_ids_Inr [OF assms(2,3) ok, of mn tvs] assms(1) by simp
  have "(v, c) \<in> set ids \<longleftrightarrow> (\<exists>e \<in> set listing. (v, c) \<in> set (table_tasks all_ids mn tvs e))"
    by (simp add: ids)
  also have "\<dots> \<longleftrightarrow> (\<exists>(f, csv) \<in> set listing. (v, c) \<in> set (table_tasks all_ids mn tvs (f, csv)))"
    by (simp add: case_prod_unfold)
  also have "\<dots> \<longleftrightarrow> v \<in> set tvs \<and> (\<exists>(f, csv) \<in> set listing. \<exists>m. csv = Inr m \<and> split_first f = c \<and>
        table_accepts m all_ids mn v)"
    by (auto simp: table_tasks_mem)
  finally show ?thesis .
qed



subsection \<open>The keys of an iteration\<close>










lemma iter_present:
  "None \<notin> set cells \<Longrightarrow>
     map (\<lambda>(i, c). case c of Some a \<Rightarrow> Value a | None \<Rightarrow> FreshNaN i) (enumerate n cells)
     = map Value (List.map_filter (\<lambda>c. c) cells)"
proof (induction cells arbitrary: n)
  case Nil
  show ?case by simp
next
  case (Cons c cells)
  then obtain a where "c = Some a" by (cases c) auto
  with Cons show ?case by simp
qed

lemma object_present:
  "None \<notin> set cells \<Longrightarrow>
     map (\<lambda>c. case c of Some a \<Rightarrow> Value a | None \<Rightarrow> NaN) cells
     = map Value (List.map_filter (\<lambda>c. c) cells)"
proof (induction cells)
  case Nil
  show ?case by simp
next
  case (Cons c cells)
  then obtain a where "c = Some a" by (cases c) auto
  with Cons show ?case by simp
qed

lemma series_iter_present:
  "None \<notin> set cells \<Longrightarrow> series_iter numeric cells = map Value (List.map_filter (\<lambda>c. c) cells)"
  by (simp add: series_iter_def iter_present object_present)

lemma count_list_map_Value: "count_list (map Value xs) (Value a) = count_list xs a"
  by (induction xs) auto

subsection \<open>The example directory\<close>

lemma ex_catalog_1:
  "get_TCGA_task_ids ex_dir 1 (Some ex_variables) = Inr [(''sex'', ''CANCER'')]"
  by code_simp

lemma ex_catalog_0:
  "get_TCGA_task_ids ex_dir 0 (Some ex_variables)
     = Inr [(''sex'', ''CANCER''), (''sex'', ''DUP''), (''sex'', ''ONE'')]"
  by code_simp



section \<open>Discovery: the acceptance rule\<close>

text \<open>
  When no counted row lacks a value, one round of the loop accepts exactly what the
  rule of the specification accepts.
\<close>

lemma table_accepts_iff_spec:
  assumes cols: "v \<in> set (df_columns m)" "''sampleID'' \<in> set (df_columns m)"
    and present: "None \<notin> set (counted_cells m all_ids v)"
  shows "table_accepts m all_ids mn v \<longleftrightarrow> spec_accepts m all_ids mn v"
proof -
  let ?obs = "observed_values m all_ids v"
  have keys: "counted_keys m all_ids v = map Value ?obs"
    using present by (simp add: counted_keys_def observed_values_def series_iter_present)
  have "list_all (\<lambda>n. mn < int n) (map snd (Counter (map Value ?obs)))
      \<longleftrightarrow> (\<forall>k \<in> set (map Value ?obs). mn < int (count_list (map Value ?obs) k))"
    by (rule Counter_values)
  also have "\<dots> \<longleftrightarrow> (\<forall>a \<in> set ?obs. mn < int (count_list ?obs a))"
    by (simp add: count_list_map_Value)
  also have "\<dots> \<longleftrightarrow> list_all (\<lambda>a. mn < int (count_list ?obs a)) ?obs"
    by (simp add: list_all_iff)
  finally have range: "list_all (\<lambda>n. mn < int n) (map snd (Counter (map Value ?obs)))
      \<longleftrightarrow> list_all (\<lambda>a. mn < int (count_list ?obs a)) ?obs" .
  have "inj_on Value (set ?obs)"
    by (simp add: inj_on_def)
  then have "card (Value ` set ?obs) = card (set ?obs)"
    by (rule card_image)
  then have "length (Counter (map Value ?obs)) = card (set ?obs)"
    by (simp add: Counter_length)
  then have two: "1 < length (Counter (map Value ?obs)) \<longleftrightarrow> 2 \<le> card (set ?obs)"
    by arith
  show ?thesis
    by (simp only: table_accepts_def spec_accepts_def keys range two cols simp_thms)
qed


text \<open>
  Hence, over a directory in which no counted row of the variable lacks a value, the
  returned catalog holds exactly the pairs that the rule of the specification accepts.
\<close>

lemma catalog_follows_rule:
  assumes ids: "get_TCGA_task_ids dd mn (Some tvs) = Inr ids"
    and all_ids: "all_sample_ids_file dd = Some all_ids"
    and listing: "clinicalMatrices dd = Some listing"
    and present: "\<forall>(f, csv) \<in> set listing. \<forall>m. csv = Inr m \<longrightarrow> None \<notin> set (counted_cells m all_ids v)"
  shows "(v, c) \<in> set ids \<longleftrightarrow>
           v \<in> set tvs \<and>
           (\<exists>(f, csv) \<in> set listing. \<exists>m. csv = Inr m \<and> split_first f = c \<and>
              v \<in> set (df_columns m) \<and> ''sampleID'' \<in> set (df_columns m) \<and>
              spec_accepts m all_ids mn v)"
proof -
  have eq: "table_accepts m all_ids mn v \<longleftrightarrow>
      v \<in> set (df_columns m) \<and> ''sampleID'' \<in> set (df_columns m) \<and> spec_accepts m all_ids mn v"
    if "(f, Inr m) \<in> set listing" for f m
  proof (cases "v \<in> set (df_columns m) \<and> ''sampleID'' \<in> set (df_columns m)")
    case True
    from that present have "None \<notin> set (counted_cells m all_ids v)"
      by blast
    with True show ?thesis
      by (simp add: table_accepts_iff_spec)
  next
    case False
    then show ?thesis
      by (auto simp: table_accepts_def)
  qed
  have bex: "(\<exists>(f, csv) \<in> set listing. \<exists>m. csv = Inr m \<and> split_first f = c \<and>
        table_accepts m all_ids mn v) \<longleftrightarrow>
      (\<exists>(f, csv) \<in> set listing. \<exists>m. csv = Inr m \<and> split_first f = c \<and>
              v \<in> set (df_columns m) \<and> ''sampleID'' \<in> set (df_columns m) \<and>
              spec_accepts m all_ids mn v)"
  proof (rule bex_cong [OF refl])
    fix x
    assume x: "x \<in> set listing"
    obtain f csv where fc: "x = (f, csv)"
      by (cases x)
    show "(case x of (f, csv) \<Rightarrow> \<exists>m. csv = Inr m \<and> split_first f = c \<and>
              table_accepts m all_ids mn v) \<longleftrightarrow>
          (case x of (f, csv) \<Rightarrow> \<exists>m. csv = Inr m \<and> split_first f = c \<and>
              v \<in> set (df_columns m) \<and> ''sampleID'' \<in> set (df_columns m) \<and>
              spec_accepts m all_ids mn v)"
    proof (cases csv)
      case (Inl e)
      with fc show ?thesis
        by simp
    next
      case (Inr m)
      with x fc have "(f, Inr m) \<in> set listing"
        by simp
      from eq [OF this] fc Inr show ?thesis
        by simp
    qed
  qed
  have "(v, c) \<in> set ids \<longleftrightarrow>
     v \<in> set tvs \<and> (\<exists>(f, csv) \<in> set listing. \<exists>m. csv = Inr m \<and> split_first f = c \<and>
        table_accepts m all_ids mn v)"
    by (rule catalog_mem [OF ids all_ids listing])
  also note bex
  finally show ?thesis .
qed

text \<open>
  Claim C1 says that discovery accepts a task id if and only if, over the rows whose
  sample id lies in the intersection, every category is counted more than
  \<open>min_samples_per_class\<close> times and there are at least two categories. The loop
  departs from it when a counted row lacks a value, since its counter is fed the cells
  of all the counted rows, the missing ones too. In the table \<open>ONE\<close> the only observed
  value is \<open>M\<close>: the rule rejects the task, the loop accepts it at the threshold 0 (the
  missing cell is its second key), and its materialization has one class. In the table
  \<open>NUM\<close> the values 10 and 9 are observed twice each: the rule accepts the task at the
  threshold 1, the loop rejects it (each missing cell is a key counted once).
\<close>

theorem one_class_task_accepted:
  "get_TCGA_task_ids ex_dir 0 (Some ex_variables)
     = Inr [(''sex'', ''CANCER''), (''sex'', ''DUP''), (''sex'', ''ONE'')]
   \<and> observed_values one_table ex_sample_ids ''sex'' = [Str ''M'', Str ''M'']
   \<and> \<not> spec_accepts one_table ex_sample_ids 0 ''sex''
   \<and> TCGATask_init (''sex'', ''ONE'') ex_dir None = Inr one_task
   \<and> num_classes one_task = 1
   \<and> get_TCGA_task_ids num_dir 1 (Some [''grade'']) = Inr []
   \<and> observed_values num_table ex_sample_ids ''grade'' = [Num 10, Num 9, Num 10, Num 9]
   \<and> spec_accepts num_table ex_sample_ids 1 ''grade''"
proof (intro conjI)
  show "get_TCGA_task_ids ex_dir 0 (Some ex_variables)
     = Inr [(''sex'', ''CANCER''), (''sex'', ''DUP''), (''sex'', ''ONE'')]"
    by (rule ex_catalog_0)
  show "observed_values one_table ex_sample_ids ''sex'' = [Str ''M'', Str ''M'']"
    by code_simp
  show "\<not> spec_accepts one_table ex_sample_ids 0 ''sex''"
    by code_simp
  show "TCGATask_init (''sex'', ''ONE'') ex_dir None = Inr one_task"
    by code_simp
  show "num_classes one_task = 1"
    by (simp add: one_task_def)
  show "get_TCGA_task_ids num_dir 1 (Some [''grade'']) = Inr []"
    by code_simp
  show "observed_values num_table ex_sample_ids ''grade'' = [Num 10, Num 9, Num 10, Num 9]"
    by code_simp
  show "spec_accepts num_table ex_sample_ids 1 ''grade''"
    by code_simp
qed

section \<open>Discovery: what makes it fail\<close>






section \<open>Discovery: a missing column\<close>





section \<open>Discovery: rows with a missing value\<close>






lemma one_table_columns:
  "''sex'' \<in> set (df_columns one_table)" "''sampleID'' \<in> set (df_columns one_table)"
  by (simp_all add: one_table_def)



section \<open>Materialization: auxiliary facts\<close>

lemma and_then_eq_Inr: "and_then r f = Inr y \<longleftrightarrow> (\<exists>a. r = Inr a \<and> f a = Inr y)"
  by (cases r) simp_all

lemma position_Some_iff:
  "position xs x = Some i \<longleftrightarrow> i < length xs \<and> xs ! i = x \<and> x \<notin> set (take i xs)"
proof (induction xs arbitrary: i)
  case Nil
  show ?case by simp
next
  case (Cons y ys)
  show ?case
  proof (cases "y = x")
    case True
    then show ?thesis by (cases i) auto
  next
    case False
    then show ?thesis by (cases i) (auto simp: Cons.IH)
  qed
qed

lemma position_None_iff: "position xs x = None \<longleftrightarrow> x \<notin> set xs"
  by (induction xs) auto

lemma position_map_Some: "position (map (\<lambda>s. Some (Str s)) xs) (Some (Str s)) = position xs s"
  by (induction xs) auto

lemma indices_of_eq_Inr:
  "indices_of all_ids cells = Inr idx \<longleftrightarrow> map (position (map (\<lambda>s. Some (Str s)) all_ids)) cells = map Some idx"
proof (induction cells arbitrary: idx)
  case Nil
  show ?case by auto
next
  case (Cons c cells)
  show ?case
  proof (cases "position (map (\<lambda>s. Some (Str s)) all_ids) c")
    case None
    then show ?thesis by (auto simp: index_def)
  next
    case (Some i)
    show ?thesis
    proof (cases "indices_of all_ids cells")
      case (Inl e)
      have "map (position (map (\<lambda>s. Some (Str s)) all_ids)) cells \<noteq> map Some js" for js
        using Cons.IH [of js] Inl by simp
      then show ?thesis
        by (cases idx) (auto simp: index_def Some Inl)
    next
      case (Inr js)
      then have "map (position (map (\<lambda>s. Some (Str s)) all_ids)) cells = map Some js"
        by (simp add: Cons.IH)
      then show ?thesis
        by (cases idx) (auto simp: index_def Some Inr inj_map_eq_map)
    qed
  qed
qed

lemma set_map_filter_id: "set (List.map_filter (\<lambda>c. c) col) = {a. Some a \<in> set col}"
  by (induction col) (auto split: option.splits)

lemma cat_categories_set: "set (cat_categories col) = {a. Some a \<in> set col}"
  by (simp add: cat_categories_def set_map_filter_id)

lemma cat_categories_sorted: "sorted (map scalar_key (cat_categories col))"
  by (simp add: cat_categories_def)

lemma cat_categories_distinct: "distinct (cat_categories col)"
  by (simp add: cat_categories_def)

lemma sort_zip_fst:
  fixes idx :: "nat list" and codes :: "int list"
  assumes "length idx = length codes"
  shows "map fst (sort (zip idx codes)) = sort idx"
proof -
  have "sorted_wrt (\<lambda>p q. fst p \<le> fst q) (sort (zip idx codes))"
    by (rule sorted_wrt_mono_rel [of _ "(\<le>)"]) (auto simp: less_eq_prod_def)
  then have s: "sorted (map fst (sort (zip idx codes)))"
    by (simp add: sorted_map)
  have m: "mset (map fst (sort (zip idx codes))) = mset idx"
  proof -
    have "mset (map fst (sort (zip idx codes))) = image_mset fst (mset (sort (zip idx codes)))"
      by simp
    also have "\<dots> = image_mset fst (mset (zip idx codes))"
      by simp
    also have "\<dots> = mset (map fst (zip idx codes))"
      by simp
    also have "\<dots> = mset idx"
      using assms by simp
    finally show ?thesis .
  qed
  from m s have "sort idx = map fst (sort (zip idx codes))"
    by (rule properties_for_sort)
  then show ?thesis by (rule sym)
qed

lemma unzip_sorted_eq_Inr:
  "unzip_sorted ps = Inr (a, b) \<longleftrightarrow> ps \<noteq> [] \<and> a = map fst (sort ps) \<and> b = map snd (sort ps)"
proof (cases "sort ps")
  case Nil
  then have "mset ps = {#}" by (metis mset_sort mset.simps(1))
  then have "ps = []" by simp
  with Nil show ?thesis by (simp add: unzip_sorted_def)
next
  case (Cons q qs)
  then have "ps \<noteq> []" by auto
  with Cons show ?thesis by (auto simp: unzip_sorted_def)
qed

lemma numpy_take_eq_Inr:
  "numpy_take d idx = Inr rows \<longleftrightarrow> (\<forall>i \<in> set idx. i < length d) \<and> rows = map (\<lambda>i. d ! i) idx"
  by (auto simp: numpy_take_def list_all_iff)

lemma h5py_take_eq_Inr:
  "h5py_take d idx = Inr rows \<longleftrightarrow>
     (\<forall>i \<in> set idx. i < length d) \<and> sorted_wrt (<) idx \<and> rows = map (\<lambda>i. d ! i) idx"
  by (auto simp: h5py_take_def list_all_iff)

lemma available_elements_mask:
  "mask (map f rs) (map2 (\<and>) (notnull (map (\<lambda>r. r v) rs)) (isin (map (\<lambda>r. r ''sampleID'') rs) (set all_ids)))
     = map f (retained_rows \<lparr>df_columns = cs, df_rows = rs\<rparr> all_ids v)"
  by (induction rs) (simp_all add: mask_def retained_rows_def notnull_def isin_def)

lemma retained_mask:
  "mask (map f (df_rows m))
     (map2 (\<and>) (notnull (map (\<lambda>r. r v) (df_rows m)))
                (isin (map (\<lambda>r. r ''sampleID'') (df_rows m)) (set all_ids)))
     = map f (retained_rows m all_ids v)"
proof -
  have "mask (map f rs)
     (map2 (\<and>) (notnull (map (\<lambda>r. r v) rs)) (isin (map (\<lambda>r. r ''sampleID'') rs) (set all_ids)))
     = map f (filter (\<lambda>r. r v \<noteq> None \<and> (case r ''sampleID'' of Some (Str s) \<Rightarrow> s \<in> set all_ids | _ \<Rightarrow> False)) rs)"
    for rs
    by (induction rs) (simp_all add: mask_def notnull_def isin_def)
  then show ?thesis
    by (simp add: retained_rows_def)
qed

lemma getitem_eq_Inr:
  "getitem m name = Inr col \<longleftrightarrow> name \<in> set (df_columns m) \<and> col = map (\<lambda>r. r name) (df_rows m)"
  by (auto simp: getitem_def)

lemma TCGATask_init_Inr:
  assumes init: "TCGATask_init (v, c) dd pre = Inr t"
    and csv: "read_csv dd (c @ ''_clinicalMatrix'') = Inr m"
  shows "\<exists>idx d.
        v \<in> set (df_columns m) \<and> ''sampleID'' \<in> set (df_columns m)
      \<and> expression_store dd pre = Some d
      \<and> sample_id_list dd pre = Some (all_sample_ids t)
      \<and> map (position (map (\<lambda>s. Some (Str s)) (all_sample_ids t)))
            (map (\<lambda>r. r ''sampleID'') (retained_rows m (all_sample_ids t) v)) = map Some idx
      \<and> retained_rows m (all_sample_ids t) v \<noteq> []
      \<and> labels t = map snd (sort (zip idx (cat_codes (map (\<lambda>r. r v) (retained_rows m (all_sample_ids t) v)))))
      \<and> samples t = map (\<lambda>i. d ! i) (sort idx)
      \<and> (\<forall>i \<in> set idx. i < length d)
      \<and> (pre = None \<longrightarrow> sorted_wrt (<) (sort idx))
      \<and> categories t = cat_categories (map (\<lambda>r. r v) (retained_rows m (all_sample_ids t) v))
      \<and> num_classes t = length (categories t)"
proof -
  from init csv obtain all_ids genes indices_to_load indices_sorted lbls rows where
    src: "(case pre of
           None \<Rightarrow>
             (case (gene_ids_file dd, all_sample_ids_file dd) of
                (Some g, Some a) \<Rightarrow> Inr (a, g)
              | _ \<Rightarrow> Inl ValueError)
         | Some (a, g, d) \<Rightarrow> Inr (a, g)) = Inr (all_ids, genes)"
    and cols: "''sampleID'' \<in> set (df_columns m)" "v \<in> set (df_columns m)"
    and idx: "indices_of all_ids (map (\<lambda>r. r ''sampleID'') (retained_rows m all_ids v)) = Inr indices_to_load"
    and unz: "unzip_sorted (zip indices_to_load (cat_codes (map (\<lambda>r. r v) (retained_rows m all_ids v))))
                = Inr (indices_sorted, lbls)"
    and take: "(case pre of
             None \<Rightarrow> (case hdf_file dd of None \<Rightarrow> Inl OSError | Some dset \<Rightarrow> h5py_take dset indices_sorted)
           | Some (a, g, d) \<Rightarrow> numpy_take d indices_sorted) = Inr rows"
    and t: "t = \<lparr> task_id = (v, c), gene_ids = genes, all_sample_ids = all_ids,
                  labels = lbls, categories = cat_categories (map (\<lambda>r. r v) (retained_rows m all_ids v)),
                  num_classes = length (cat_categories (map (\<lambda>r. r v) (retained_rows m all_ids v))),
                  samples = rows \<rparr>"
    by (auto simp: TCGATask_init_def and_then_eq_Inr Let_def getitem_eq_Inr retained_mask)
  let ?kept = "retained_rows m all_ids v"
  let ?codes = "cat_codes (map (\<lambda>r. r v) ?kept)"
  have a: "all_sample_ids t = all_ids" by (simp add: t)
  have pos: "map (position (map (\<lambda>s. Some (Str s)) all_ids)) (map (\<lambda>r. r ''sampleID'') ?kept) = map Some indices_to_load"
    using idx by (simp only: indices_of_eq_Inr)
  then have "length (map (position (map (\<lambda>s. Some (Str s)) all_ids)) (map (\<lambda>r. r ''sampleID'') ?kept))
      = length (map Some indices_to_load)"
    by (rule arg_cong)
  then have len: "length indices_to_load = length ?codes"
    by (simp add: cat_codes_def)
  from unz have ne: "zip indices_to_load ?codes \<noteq> []"
    and srt: "indices_sorted = map fst (sort (zip indices_to_load ?codes))"
    and lb: "lbls = map snd (sort (zip indices_to_load ?codes))"
    by (simp_all add: unzip_sorted_eq_Inr)
  from srt len have srt': "indices_sorted = sort indices_to_load"
    by (simp add: sort_zip_fst)
  from ne have kept: "?kept \<noteq> []"
    by (auto simp: cat_codes_def)
  obtain d where d: "expression_store dd pre = Some d"
    and rows: "rows = map (\<lambda>i. d ! i) indices_sorted"
    and bound: "\<forall>i \<in> set indices_sorted. i < length d"
    and incr: "pre = None \<longrightarrow> sorted_wrt (<) indices_sorted"
    using take
    by (auto simp: expression_store_def numpy_take_eq_Inr h5py_take_eq_Inr split: option.splits)
  from bound have bound': "\<forall>i \<in> set indices_to_load. i < length d"
    by (simp add: srt')
  have sl: "sample_id_list dd pre = Some all_ids"
    using src by (auto simp: sample_id_list_def split: option.splits)
  show ?thesis
    apply (rule exI [of _ indices_to_load])
    apply (rule exI [of _ d])
    using cols d sl pos kept lb rows bound' incr
    apply (simp add: a srt')
    apply (simp add: t)
    done
qed

lemma cat_codes_nth:
  assumes "j < length col" and "col ! j = Some a"
  shows "\<exists>n. position (cat_categories col) a = Some n \<and> cat_codes col ! j = int n"
proof -
  have "Some a \<in> set col"
    using assms by (metis nth_mem)
  then have "a \<in> set (cat_categories col)"
    by (simp add: cat_categories_set)
  then obtain n where n: "position (cat_categories col) a = Some n"
    by (cases "position (cat_categories col) a") (simp_all add: position_None_iff)
  with assms have "cat_codes col ! j = int n"
    by (simp add: cat_codes_def)
  with n show ?thesis by blast
qed

lemma retained_rows_nth:
  assumes "j < length (retained_rows m all_ids v)"
  shows "retained_rows m all_ids v ! j \<in> set (df_rows m)
       \<and> (\<exists>s a. (retained_rows m all_ids v ! j) ''sampleID'' = Some (Str s) \<and> s \<in> set all_ids
              \<and> (retained_rows m all_ids v ! j) v = Some a)"
proof -
  have "retained_rows m all_ids v ! j \<in> set (retained_rows m all_ids v)"
    using assms by (rule nth_mem)
  then show ?thesis
    by (auto simp: retained_rows_def split: option.splits scalar.splits)
qed

text \<open>What the task holds at position \<open>i\<close>, traced back to a retained row.\<close>

lemma task_row_origin:
  assumes init: "TCGATask_init (v, c) dd pre = Inr t"
    and csv: "read_csv dd (c @ ''_clinicalMatrix'') = Inr m"
    and store: "expression_store dd pre = Some d"
    and i: "i < length (samples t)"
  shows "\<exists>r \<in> set (df_rows m). \<exists>s a k n.
           r ''sampleID'' = Some (Str s) \<and> s \<in> set (all_sample_ids t) \<and> r v = Some a
         \<and> position (all_sample_ids t) s = Some k \<and> k < length d \<and> samples t ! i = d ! k
         \<and> position (categories t) a = Some n \<and> labels t ! i = int n"
proof -
  let ?kept = "retained_rows m (all_sample_ids t) v"
  let ?codes = "cat_codes (map (\<lambda>r. r v) ?kept)"
  from TCGATask_init_Inr [OF init csv] store obtain idx where
    pos: "map (position (map (\<lambda>s. Some (Str s)) (all_sample_ids t))) (map (\<lambda>r. r ''sampleID'') ?kept) = map Some idx"
    and lb: "labels t = map snd (sort (zip idx ?codes))"
    and sm: "samples t = map (\<lambda>i. d ! i) (sort idx)"
    and bound: "\<forall>i \<in> set idx. i < length d"
    and cats: "categories t = cat_categories (map (\<lambda>r. r v) ?kept)"
    by auto
  from pos have "length (map (position (map (\<lambda>s. Some (Str s)) (all_sample_ids t))) (map (\<lambda>r. r ''sampleID'') ?kept))
      = length (map Some idx)"
    by (rule arg_cong)
  then have len: "length idx = length ?kept" by simp
  then have len': "length idx = length ?codes" by (simp add: cat_codes_def)
  have fst: "map fst (sort (zip idx ?codes)) = sort idx"
    using len' by (rule sort_zip_fst)
  from i sm have i': "i < length (sort (zip idx ?codes))"
    using len' by simp
  then have "sort (zip idx ?codes) ! i \<in> set (sort (zip idx ?codes))"
    by (rule nth_mem)
  then have "sort (zip idx ?codes) ! i \<in> set (zip idx ?codes)"
    by simp
  then obtain j where j: "j < length ?kept" and e: "sort (zip idx ?codes) ! i = (idx ! j, ?codes ! j)"
    using len len' by (auto simp: in_set_zip)
  let ?r = "?kept ! j"
  from retained_rows_nth [OF j] obtain s a where
    r: "?r \<in> set (df_rows m)" and s: "?r ''sampleID'' = Some (Str s)" "s \<in> set (all_sample_ids t)"
    and a: "?r v = Some a"
    by blast
  have "map (position (map (\<lambda>s. Some (Str s)) (all_sample_ids t))) (map (\<lambda>r. r ''sampleID'') ?kept) ! j = map Some idx ! j"
    by (simp only: pos)
  then have k: "position (all_sample_ids t) s = Some (idx ! j)"
    using j len s by (simp add: position_map_Some)
  have kd: "idx ! j < length d"
    using bound j len by simp
  have "sort idx ! i = fst (sort (zip idx ?codes) ! i)"
    using i' by (simp add: fst [symmetric])
  then have si: "samples t ! i = d ! (idx ! j)"
    using i i' sm e by simp
  have li: "labels t ! i = ?codes ! j"
    using i' e by (simp add: lb)
  from cat_codes_nth [of j "map (\<lambda>r. r v) ?kept" a] j a obtain n where
    n: "position (cat_categories (map (\<lambda>r. r v) ?kept)) a = Some n" "?codes ! j = int n"
    by auto
  show ?thesis
    using r s a k kd si li n cats by auto
qed

lemma task_sizes:
  assumes init: "TCGATask_init (v, c) dd pre = Inr t"
    and csv: "read_csv dd (c @ ''_clinicalMatrix'') = Inr m"
  shows "length (labels t) = length (retained_rows m (all_sample_ids t) v)"
    and "length (samples t) = length (retained_rows m (all_sample_ids t) v)"
    and "num_classes t = length (categories t)"
proof -
  let ?kept = "retained_rows m (all_sample_ids t) v"
  let ?codes = "cat_codes (map (\<lambda>r. r v) ?kept)"
  from TCGATask_init_Inr [OF init csv] obtain idx d where
    pos: "map (position (map (\<lambda>s. Some (Str s)) (all_sample_ids t))) (map (\<lambda>r. r ''sampleID'') ?kept) = map Some idx"
    and lb: "labels t = map snd (sort (zip idx ?codes))"
    and sm: "samples t = map (\<lambda>i. d ! i) (sort idx)"
    and nc: "num_classes t = length (categories t)"
    by auto
  from pos have "length (map (position (map (\<lambda>s. Some (Str s)) (all_sample_ids t))) (map (\<lambda>r. r ''sampleID'') ?kept))
      = length (map Some idx)"
    by (rule arg_cong)
  then have len: "length idx = length ?kept" by simp
  then have len': "length idx = length ?codes" by (simp add: cat_codes_def)
  show "length (labels t) = length ?kept"
    using len len' by (simp add: lb)
  show "length (samples t) = length ?kept"
    using len by (simp add: sm)
  show "num_classes t = length (categories t)"
    by (rule nc)
qed

subsection \<open>When materialization returns a task\<close>

lemma map_all_Some:
  "\<forall>x \<in> set xs. \<exists>k. f x = Some k \<Longrightarrow> \<exists>ks. map f xs = map Some ks"
proof (induction xs)
  case Nil
  show ?case by simp
next
  case (Cons x xs)
  then obtain k ks where "f x = Some k" and "map f xs = map Some ks"
    by auto
  then have "map f (x # xs) = map Some (k # ks)"
    by simp
  then show ?case ..
qed

lemma retained_positions:
  "\<exists>idx. map (position (map (\<lambda>s. Some (Str s)) all_ids)) (map (\<lambda>r. r ''sampleID'') (retained_rows m all_ids v))
            = map Some idx"
proof -
  let ?kept = "retained_rows m all_ids v"
  have "\<exists>k. position (map (\<lambda>s. Some (Str s)) all_ids) (r ''sampleID'') = Some k" if "r \<in> set ?kept" for r
  proof -
    from that obtain s where s: "r ''sampleID'' = Some (Str s)" "s \<in> set all_ids"
      by (auto simp: retained_rows_def split: option.splits scalar.splits)
    then have "position all_ids s \<noteq> None"
      by (simp add: position_None_iff)
    with s show ?thesis
      by (auto simp: position_map_Some)
  qed
  then have "\<forall>c \<in> set (map (\<lambda>r. r ''sampleID'') ?kept). \<exists>k. position (map (\<lambda>s. Some (Str s)) all_ids) c = Some k"
    by auto
  then show ?thesis
    by (rule map_all_Some)
qed

lemma positions_bounded:
  assumes "map (position (map (\<lambda>s. Some (Str s)) all_ids)) cells = map Some idx"
  shows "\<forall>k \<in> set idx. k < length all_ids"
proof
  fix k assume "k \<in> set idx"
  then have "Some k \<in> set (map Some idx)" by simp
  then have "Some k \<in> set (map (position (map (\<lambda>s. Some (Str s)) all_ids)) cells)"
    by (simp only: assms)
  then obtain c where "position (map (\<lambda>s. Some (Str s)) all_ids) c = Some k" by auto
  then show "k < length all_ids"
    by (simp add: position_Some_iff)
qed

lemma positions_distinct:
  assumes "map (position (map (\<lambda>s. Some (Str s)) all_ids)) cells = map Some idx" and "distinct cells"
  shows "distinct idx"
proof -
  have len: "length idx = length cells"
    using arg_cong [OF assms(1), of length] by simp
  have nth: "position (map (\<lambda>s. Some (Str s)) all_ids) (cells ! i) = Some (idx ! i)" if "i < length cells" for i
    using arg_cong [OF assms(1), of "\<lambda>xs. xs ! i"] that len by simp
  show ?thesis
  proof (rule ccontr)
    assume "\<not> distinct idx"
    then obtain i j where ij: "i < length idx" "j < length idx" "i \<noteq> j" "idx ! i = idx ! j"
      by (auto simp: distinct_conv_nth)
    from nth [of i] nth [of j] ij len
    have "map (\<lambda>s. Some (Str s)) all_ids ! (idx ! i) = cells ! i" "map (\<lambda>s. Some (Str s)) all_ids ! (idx ! i) = cells ! j"
      by (simp_all only: position_Some_iff)
    then have "cells ! i = cells ! j" by simp
    with assms(2) ij len show False
      by (simp add: nth_eq_iff_index_eq)
  qed
qed

lemma TCGATask_init_total:
  assumes src: "sample_id_list dd pre = Some all_ids"
    and genes: "pre = None \<longrightarrow> gene_ids_file dd \<noteq> None"
    and csv: "read_csv dd (c @ ''_clinicalMatrix'') = Inr m"
    and cols: "v \<in> set (df_columns m)" "''sampleID'' \<in> set (df_columns m)"
    and store: "expression_store dd pre = Some d"
    and rows: "length all_ids \<le> length d"
    and kept: "retained_rows m all_ids v \<noteq> []"
    and lazy: "pre = None \<longrightarrow> distinct (map (\<lambda>r. r ''sampleID'') (retained_rows m all_ids v))"
  shows "\<exists>t. TCGATask_init (v, c) dd pre = Inr t"
proof -
  let ?kept = "retained_rows m all_ids v"
  let ?codes = "cat_codes (map (\<lambda>r. r v) ?kept)"
  from retained_positions [of all_ids m v] obtain idx where
    pos: "map (position (map (\<lambda>s. Some (Str s)) all_ids)) (map (\<lambda>r. r ''sampleID'') ?kept) = map Some idx"
    by blast
  then have io: "indices_of all_ids (map (\<lambda>r. r ''sampleID'') ?kept) = Inr idx"
    by (simp only: indices_of_eq_Inr)
  have len: "length idx = length ?kept"
    using arg_cong [OF pos, of length] by simp
  then have len': "length idx = length ?codes"
    by (simp add: cat_codes_def)
  have ne: "zip idx ?codes \<noteq> []"
    using kept len len' by (cases idx; cases ?codes) auto
  have unz: "unzip_sorted (zip idx ?codes) = Inr (sort idx, map snd (sort (zip idx ?codes)))"
    using ne len' by (simp add: unzip_sorted_eq_Inr sort_zip_fst)
  have bound: "\<forall>k \<in> set (sort idx). k < length d"
    using positions_bounded [OF pos] rows by auto
  have np: "numpy_take d (sort idx) = Inr (map (\<lambda>i. d ! i) (sort idx))"
    using bound by (simp add: numpy_take_eq_Inr)
  show ?thesis
  proof (cases pre)
    case None
    with src genes store obtain g where
      f: "all_sample_ids_file dd = Some all_ids" "gene_ids_file dd = Some g" "hdf_file dd = Some d"
      by (auto simp: sample_id_list_def expression_store_def)
    from lazy None have "distinct idx"
      using positions_distinct [OF pos] by simp
    then have "sorted_wrt (<) (sort idx)"
      by (simp add: strict_sorted_iff)
    then have "h5py_take d (sort idx) = Inr (map (\<lambda>i. d ! i) (sort idx))"
      using bound by (simp add: h5py_take_eq_Inr)
    then show ?thesis
      using None f csv cols io unz
      by (simp add: TCGATask_init_def getitem_Inr Let_def retained_mask)
  next
    case (Some p)
    with src store obtain g where p: "p = (all_ids, g, d)"
      by (cases p) (auto simp: sample_id_list_def expression_store_def)
    show ?thesis
      using Some p csv cols io unz np
      by (simp add: TCGATask_init_def getitem_Inr Let_def retained_mask)
  qed
qed

subsection \<open>The example tasks\<close>

lemma ex_task_lazy: "TCGATask_init (''sex'', ''CANCER'') ex_dir None = Inr ex_task"
  by code_simp

lemma ex_task_preloaded: "TCGATask_init (''sex'', ''CANCER'') ex_dir ex_preloaded = Inr ex_task"
  by code_simp

lemma ex_read_csv: "read_csv ex_dir (''CANCER'' @ ''_clinicalMatrix'') = Inr ex_table"
  by (simp add: read_csv_def ex_dir_def ex_listing_def)

lemma ex_store: "expression_store ex_dir None = Some ex_matrix"
  by (simp add: expression_store_def ex_dir_def)

section \<open>Materialization: sizes and label range\<close>

text \<open>
  Claim C7. For every task that materialization returns, there are as many labels as
  feature rows, the length of the task is that number, it is the number of rows
  gathered (the retained rows of the table), the number of classes is the length of the
  category sequence, and every label is an integer from 0 up to, and not including, the
  number of classes.
\<close>

theorem task_lengths_and_label_range:
  assumes init: "TCGATask_init (v, c) dd pre = Inr t"
    and csv: "read_csv dd (c @ ''_clinicalMatrix'') = Inr m"
  shows "length (labels t) = length (samples t)
       \<and> TCGATask_len t = length (samples t)
       \<and> length (samples t) = length (retained_rows m (all_sample_ids t) v)
       \<and> num_classes t = length (categories t)
       \<and> (\<forall>l \<in> set (labels t). 0 \<le> l \<and> l < int (num_classes t))"
proof (intro conjI ballI)
  note sz = task_sizes [OF init csv]
  show "length (labels t) = length (samples t)"
    by (simp add: sz)
  show "TCGATask_len t = length (samples t)"
    by (simp add: TCGATask_len_def)
  show "length (samples t) = length (retained_rows m (all_sample_ids t) v)"
    by (rule sz)
  show "num_classes t = length (categories t)"
    by (rule sz)
  fix l assume "l \<in> set (labels t)"
  then obtain i where i: "i < length (labels t)" and l: "labels t ! i = l"
    by (auto simp: in_set_conv_nth)
  from TCGATask_init_Inr [OF init csv] obtain d where d: "expression_store dd pre = Some d"
    by blast
  from i have "i < length (samples t)" by (simp add: sz)
  from task_row_origin [OF init csv d this] obtain a n where
    "position (categories t) a = Some n" and "labels t ! i = int n"
    by blast
  then have "n < length (categories t)" and "l = int n"
    using l by (simp_all add: position_Some_iff)
  then show "0 \<le> l" and "l < int (num_classes t)"
    by (simp_all add: sz)
qed

theorem task_lengths_and_label_range_witness:
  "TCGATask_init (''sex'', ''CANCER'') ex_dir None = Inr ex_task
   \<and> read_csv ex_dir (''CANCER'' @ ''_clinicalMatrix'') = Inr ex_table
   \<and> length (labels ex_task) = length (samples ex_task)
   \<and> TCGATask_len ex_task = length (samples ex_task)
   \<and> length (samples ex_task) = length (retained_rows ex_table (all_sample_ids ex_task) ''sex'')
   \<and> num_classes ex_task = length (categories ex_task)
   \<and> length (samples ex_task) = 4 \<and> num_classes ex_task = 2"
proof -
  note t = task_lengths_and_label_range [OF ex_task_lazy ex_read_csv]
  have e: "length (samples ex_task) = 4" "num_classes ex_task = 2"
    by (simp_all add: ex_task_def)
  show ?thesis
    by (intro conjI ex_task_lazy ex_read_csv e t [THEN conjunct1]
        t [THEN conjunct2, THEN conjunct1] t [THEN conjunct2, THEN conjunct2, THEN conjunct1]
        t [THEN conjunct2, THEN conjunct2, THEN conjunct2, THEN conjunct1])
qed

section \<open>Materialization: the retained samples\<close>

text \<open>
  Claim C8. In every task that materialization returns, each position holds the
  feature row and the label of a row of the clinical table whose sample id occurs in
  the global sample id list and whose value of the task variable is present: the
  feature row is the row of the expression matrix at the first position of that sample
  id, the label is the index of that value among the categories. There are exactly as
  many positions as the table has rows meeting both conditions, so a row failing one of
  them contributes nothing.
\<close>

theorem retained_samples_valid:
  assumes init: "TCGATask_init (v, c) dd pre = Inr t"
    and csv: "read_csv dd (c @ ''_clinicalMatrix'') = Inr m"
    and store: "expression_store dd pre = Some d"
  shows "sample_id_list dd pre = Some (all_sample_ids t)
       \<and> length (labels t) = length (samples t)
       \<and> length (samples t) =
           length (filter (\<lambda>r. r v \<noteq> None \<and> (\<exists>s \<in> set (all_sample_ids t). r ''sampleID'' = Some (Str s)))
                     (df_rows m))
       \<and> (\<forall>i < length (samples t). \<exists>r \<in> set (df_rows m). \<exists>s a k n.
             r ''sampleID'' = Some (Str s) \<and> s \<in> set (all_sample_ids t) \<and> r v = Some a
           \<and> position (all_sample_ids t) s = Some k \<and> samples t ! i = d ! k
           \<and> position (categories t) a = Some n \<and> labels t ! i = int n)"
proof (intro conjI allI impI)
  note sz = task_sizes [OF init csv]
  show "sample_id_list dd pre = Some (all_sample_ids t)"
    using TCGATask_init_Inr [OF init csv] by blast
  show "length (labels t) = length (samples t)"
    by (simp add: sz)
  have "(case r ''sampleID'' of Some (Str s) \<Rightarrow> s \<in> S | _ \<Rightarrow> False) \<longleftrightarrow> (\<exists>s \<in> S. r ''sampleID'' = Some (Str s))"
    for r :: "string \<rightharpoonup> scalar" and S
    by (auto split: option.splits scalar.splits)
  then show "length (samples t) =
           length (filter (\<lambda>r. r v \<noteq> None \<and> (\<exists>s \<in> set (all_sample_ids t). r ''sampleID'' = Some (Str s)))
                     (df_rows m))"
    by (simp add: sz retained_rows_def)
  fix i assume "i < length (samples t)"
  from task_row_origin [OF init csv store this]
  show "\<exists>r \<in> set (df_rows m). \<exists>s a k n.
             r ''sampleID'' = Some (Str s) \<and> s \<in> set (all_sample_ids t) \<and> r v = Some a
           \<and> position (all_sample_ids t) s = Some k \<and> samples t ! i = d ! k
           \<and> position (categories t) a = Some n \<and> labels t ! i = int n"
    by blast
qed

theorem retained_samples_valid_witness:
  "TCGATask_init (''sex'', ''CANCER'') ex_dir None = Inr ex_task
   \<and> read_csv ex_dir (''CANCER'' @ ''_clinicalMatrix'') = Inr ex_table
   \<and> expression_store ex_dir None = Some ex_matrix
   \<and> sample_id_list ex_dir None = Some (all_sample_ids ex_task)
   \<and> length (labels ex_task) = length (samples ex_task)
   \<and> length (samples ex_task) =
       length (filter (\<lambda>r. r ''sex'' \<noteq> None \<and> (\<exists>s \<in> set (all_sample_ids ex_task). r ''sampleID'' = Some (Str s)))
                 (df_rows ex_table))
   \<and> (\<exists>r \<in> set (df_rows ex_table). \<exists>s a k n.
             r ''sampleID'' = Some (Str s) \<and> s \<in> set (all_sample_ids ex_task) \<and> r ''sex'' = Some a
           \<and> position (all_sample_ids ex_task) s = Some k \<and> samples ex_task ! 0 = ex_matrix ! k
           \<and> position (categories ex_task) a = Some n \<and> labels ex_task ! 0 = int n)"
proof -
  note t = retained_samples_valid [OF ex_task_lazy ex_read_csv ex_store]
  have z: "0 < length (samples ex_task)" by (simp add: ex_task_def)
  note t4 = t [THEN conjunct2, THEN conjunct2, THEN conjunct2, THEN spec, THEN mp, OF z]
  show ?thesis
    by (intro conjI ex_task_lazy ex_read_csv ex_store t [THEN conjunct1]
        t [THEN conjunct2, THEN conjunct1] t [THEN conjunct2, THEN conjunct2, THEN conjunct1] t4)
qed

section \<open>Materialization: the label encoding\<close>

lemma cat_categories_order:
  assumes "i < j" and "j < length (cat_categories col)"
  shows "(\<forall>a b. cat_categories col ! i = Str a \<and> cat_categories col ! j = Str b \<longrightarrow> a < b)
       \<and> (\<forall>x y. cat_categories col ! i = Num x \<and> cat_categories col ! j = Num y \<longrightarrow> x < y)"
proof -
  let ?cats = "cat_categories col"
  have "map scalar_key ?cats ! i \<le> map scalar_key ?cats ! j"
    using assms cat_categories_sorted [of col] by (simp add: sorted_iff_nth_mono del: nth_map)
  then have le: "scalar_key (?cats ! i) \<le> scalar_key (?cats ! j)"
    using assms by simp
  have ne: "?cats ! i \<noteq> ?cats ! j"
    using assms cat_categories_distinct [of col] by (simp add: nth_eq_iff_index_eq)
  show ?thesis
  proof (intro conjI allI impI)
    fix a b assume "?cats ! i = Str a \<and> ?cats ! j = Str b"
    with le ne show "a < b" by (auto simp: less_eq_prod_def)
  next
    fix x y assume "?cats ! i = Num x \<and> ?cats ! j = Num y"
    with le ne show "x < y" by (auto simp: less_eq_prod_def)
  qed
qed

text \<open>
  Claim C4, as stated, fails: the categories are not in lexicographic order when the
  column is numeric. The grades 10 and 9 are sorted as numbers, 9 first, and 10 gets
  the code 1; as the texts of the file, \<open>10\<close> comes before \<open>9\<close>.
\<close>

theorem categories_numeric_order_counterexample:
  "TCGATask_init (''grade'', ''NUM'') num_dir None = Inr num_task
   \<and> categories num_task = [Num 9, Num 10]
   \<and> labels num_task = [1, 0, 1, 0]
   \<and> ''10'' < ''9''"
proof (intro conjI)
  show "TCGATask_init (''grade'', ''NUM'') num_dir None = Inr num_task"
    by code_simp
  show "categories num_task = [Num 9, Num 10]" "labels num_task = [1, 0, 1, 0]"
    by (simp_all add: num_task_def)
  show "''10'' < ''9''"
    by code_simp
qed

text \<open>
  Claim C4, amended. The categories of a materialized task are the distinct present
  values of the retained rows, sorted in the order of the values themselves: texts
  lexicographically, numbers by size. The label code of each retained row is the
  zero-based index of its value in that sequence; the labels of the task are these
  codes, reordered along with the row positions. In the example, with the values \<open>M\<close>
  and \<open>F\<close>, the code of \<open>F\<close> is 0 and that of \<open>M\<close> is 1.
\<close>

theorem labels_encode_sorted_categories:
  assumes init: "TCGATask_init (v, c) dd pre = Inr t"
    and csv: "read_csv dd (c @ ''_clinicalMatrix'') = Inr m"
  shows "distinct (categories t)
       \<and> (\<forall>i j. i < j \<and> j < length (categories t) \<longrightarrow>
             (\<forall>a b. categories t ! i = Str a \<and> categories t ! j = Str b \<longrightarrow> a < b)
           \<and> (\<forall>x y. categories t ! i = Num x \<and> categories t ! j = Num y \<longrightarrow> x < y))
       \<and> set (categories t) = {a. \<exists>r \<in> set (retained_rows m (all_sample_ids t) v). r v = Some a}
       \<and> num_classes t = length (categories t)
       \<and> (\<exists>idx codes.
            map (position (map (\<lambda>s. Some (Str s)) (all_sample_ids t)))
              (map (\<lambda>r. r ''sampleID'') (retained_rows m (all_sample_ids t) v)) = map Some idx
          \<and> length codes = length (retained_rows m (all_sample_ids t) v)
          \<and> (\<forall>j < length (retained_rows m (all_sample_ids t) v). \<exists>n < length (categories t).
                codes ! j = int n
              \<and> (retained_rows m (all_sample_ids t) v ! j) v = Some (categories t ! n))
          \<and> labels t = map snd (sort (zip idx codes)))"
proof -
  let ?kept = "retained_rows m (all_sample_ids t) v"
  let ?col = "map (\<lambda>r. r v) ?kept"
  from TCGATask_init_Inr [OF init csv] obtain idx where
    pos: "map (position (map (\<lambda>s. Some (Str s)) (all_sample_ids t))) (map (\<lambda>r. r ''sampleID'') ?kept) = map Some idx"
    and lb: "labels t = map snd (sort (zip idx (cat_codes ?col)))"
    and cats: "categories t = cat_categories ?col"
    and nc: "num_classes t = length (categories t)"
    by blast
  have s: "distinct (categories t)"
    by (simp add: cats cat_categories_distinct)
  have ord: "\<forall>i j. i < j \<and> j < length (categories t) \<longrightarrow>
             (\<forall>a b. categories t ! i = Str a \<and> categories t ! j = Str b \<longrightarrow> a < b)
           \<and> (\<forall>x y. categories t ! i = Num x \<and> categories t ! j = Num y \<longrightarrow> x < y)"
    unfolding cats using cat_categories_order [of _ _ ?col] by blast
  have st: "set (categories t) = {a. \<exists>r \<in> set ?kept. r v = Some a}"
  proof -
    have "Some a \<in> set ?col \<longleftrightarrow> (\<exists>r \<in> set ?kept. r v = Some a)" for a
    proof
      assume "Some a \<in> set ?col"
      then show "\<exists>r \<in> set ?kept. r v = Some a" by auto
    next
      assume "\<exists>r \<in> set ?kept. r v = Some a"
      then obtain r where "r \<in> set ?kept" and "r v = Some a" by blast
      then have "r v \<in> (\<lambda>r. r v) ` set ?kept" by (intro imageI)
      then show "Some a \<in> set ?col" by (simp add: \<open>r v = Some a\<close>)
    qed
    then show ?thesis
      by (simp add: cats cat_categories_set)
  qed
  have len: "length (cat_codes ?col) = length ?kept"
    by (simp add: cat_codes_def)
  have code: "\<exists>n < length (categories t). cat_codes ?col ! j = int n \<and> (?kept ! j) v = Some (categories t ! n)"
    if j: "j < length ?kept" for j
  proof -
    from retained_rows_nth [OF j] obtain a where a: "(?kept ! j) v = Some a"
      by blast
    with j have "?col ! j = Some a" by simp
    with cat_codes_nth [of j ?col a] j obtain n where
      n: "position (cat_categories ?col) a = Some n" "cat_codes ?col ! j = int n"
      by auto
    from n(1) have "n < length (categories t)" "categories t ! n = a"
      by (simp_all add: cats position_Some_iff)
    with n a show ?thesis by auto
  qed
  show ?thesis
    apply (intro conjI s ord st nc)
    apply (rule exI [of _ idx])
    apply (rule exI [of _ "cat_codes ?col"])
    apply (intro conjI allI impI pos len lb code)
    apply assumption
    done
qed

theorem labels_encode_sorted_categories_witness:
  "TCGATask_init (''sex'', ''CANCER'') ex_dir None = Inr ex_task
   \<and> read_csv ex_dir (''CANCER'' @ ''_clinicalMatrix'') = Inr ex_table
   \<and> distinct (categories ex_task)
   \<and> set (categories ex_task) = {a. \<exists>r \<in> set (retained_rows ex_table (all_sample_ids ex_task) ''sex''). r ''sex'' = Some a}
   \<and> num_classes ex_task = length (categories ex_task)
   \<and> categories ex_task = [Str ''F'', Str ''M'']
   \<and> ''F'' < ''M''
   \<and> position (categories ex_task) (Str ''F'') = Some 0
   \<and> position (categories ex_task) (Str ''M'') = Some 1
   \<and> labels ex_task = [0, 0, 1, 1]"
proof -
  note t = labels_encode_sorted_categories [OF ex_task_lazy ex_read_csv]
  have e: "categories ex_task = [Str ''F'', Str ''M'']"
    "position (categories ex_task) (Str ''F'') = Some 0"
    "position (categories ex_task) (Str ''M'') = Some 1" "labels ex_task = [0, 0, 1, 1]"
    by (simp_all add: ex_task_def)
  have z: "(0::nat) < 1 \<and> 1 < length (categories ex_task)"
    by (simp add: ex_task_def)
  have c: "categories ex_task ! 0 = Str ''F'' \<and> categories ex_task ! 1 = Str ''M''"
    by (simp add: ex_task_def)
  note o = t [THEN conjunct2, THEN conjunct1, THEN spec, THEN spec, THEN mp, OF z,
      THEN conjunct1, THEN spec, THEN spec, THEN mp, OF c]
  show ?thesis
    by (intro conjI ex_task_lazy ex_read_csv e o t [THEN conjunct1]
        t [THEN conjunct2, THEN conjunct2, THEN conjunct1]
        t [THEN conjunct2, THEN conjunct2, THEN conjunct2, THEN conjunct1])
qed

section \<open>Materialization: the order of the rows\<close>

text \<open>
  Claim C5. With \<open>idx\<close> the row positions of the retained samples in the expression
  store (for each retained row, the first position of its sample id in the global
  list), the feature rows of a materialized task are the rows of the store at the
  positions \<open>idx\<close> in ascending order: row \<open>i\<close> is the row at the \<open>i\<close>-th smallest position,
  the positions do not decrease along \<open>i\<close>, and the labels are paired with them as the
  codes are with the positions before sorting.
\<close>

theorem rows_ordered_by_position:
  assumes init: "TCGATask_init (v, c) dd pre = Inr t"
    and csv: "read_csv dd (c @ ''_clinicalMatrix'') = Inr m"
    and store: "expression_store dd pre = Some d"
  shows "\<exists>idx.
           map (position (map (\<lambda>s. Some (Str s)) (all_sample_ids t)))
             (map (\<lambda>r. r ''sampleID'') (retained_rows m (all_sample_ids t) v)) = map Some idx
         \<and> samples t = map (\<lambda>i. d ! i) (sort idx)
         \<and> (\<forall>i j. i \<le> j \<and> j < length idx \<longrightarrow> sort idx ! i \<le> sort idx ! j)
         \<and> length (labels t) = length idx
         \<and> mset (zip (sort idx) (labels t))
             = mset (zip idx (cat_codes (map (\<lambda>r. r v) (retained_rows m (all_sample_ids t) v))))"
proof -
  let ?kept = "retained_rows m (all_sample_ids t) v"
  let ?codes = "cat_codes (map (\<lambda>r. r v) ?kept)"
  from TCGATask_init_Inr [OF init csv] store obtain idx where
    pos: "map (position (map (\<lambda>s. Some (Str s)) (all_sample_ids t))) (map (\<lambda>r. r ''sampleID'') ?kept) = map Some idx"
    and lb: "labels t = map snd (sort (zip idx ?codes))"
    and sm: "samples t = map (\<lambda>i. d ! i) (sort idx)"
    by auto
  from pos have "length (map (position (map (\<lambda>s. Some (Str s)) (all_sample_ids t))) (map (\<lambda>r. r ''sampleID'') ?kept))
      = length (map Some idx)"
    by (rule arg_cong)
  then have len: "length idx = length ?codes" by (simp add: cat_codes_def)
  have mono: "\<forall>i j. i \<le> j \<and> j < length idx \<longrightarrow> sort idx ! i \<le> sort idx ! j"
    using sorted_sort [of idx] by (simp add: sorted_iff_nth_mono)
  have ll: "length (labels t) = length idx"
    using len by (simp add: lb)
  have "zip (sort idx) (labels t) = zip (map fst (sort (zip idx ?codes))) (map snd (sort (zip idx ?codes)))"
    using len by (simp add: lb sort_zip_fst)
  also have "\<dots> = sort (zip idx ?codes)"
    by (rule zip_map_fst_snd)
  finally have "mset (zip (sort idx) (labels t)) = mset (zip idx ?codes)"
    by simp
  with pos sm mono ll show ?thesis
    by blast
qed

theorem rows_ordered_by_position_witness:
  "TCGATask_init (''sex'', ''CANCER'') ex_dir None = Inr ex_task
   \<and> read_csv ex_dir (''CANCER'' @ ''_clinicalMatrix'') = Inr ex_table
   \<and> expression_store ex_dir None = Some ex_matrix
   \<and> (\<exists>idx.
           map (position (map (\<lambda>s. Some (Str s)) (all_sample_ids ex_task)))
             (map (\<lambda>r. r ''sampleID'') (retained_rows ex_table (all_sample_ids ex_task) ''sex'')) = map Some idx
         \<and> samples ex_task = map (\<lambda>i. ex_matrix ! i) (sort idx)
         \<and> (\<forall>i j. i \<le> j \<and> j < length idx \<longrightarrow> sort idx ! i \<le> sort idx ! j)
         \<and> length (labels ex_task) = length idx
         \<and> mset (zip (sort idx) (labels ex_task))
             = mset (zip idx (cat_codes (map (\<lambda>r. r ''sex'') (retained_rows ex_table (all_sample_ids ex_task) ''sex'')))))
   \<and> map (position (map (\<lambda>s. Some (Str s)) ex_sample_ids))
        (map (\<lambda>r. r ''sampleID'') (retained_rows ex_table ex_sample_ids ''sex'')) = map Some [2, 0, 3, 1]
   \<and> samples ex_task = map (\<lambda>i. ex_matrix ! i) [0, 1, 2, 3]"
proof -
  note t = rows_ordered_by_position [OF ex_task_lazy ex_read_csv ex_store]
  have e1: "map (position (map (\<lambda>s. Some (Str s)) ex_sample_ids))
        (map (\<lambda>r. r ''sampleID'') (retained_rows ex_table ex_sample_ids ''sex'')) = map Some [2, 0, 3, 1]"
    by (simp add: retained_rows_def ex_table_def ex_sample_ids_def)
  have e2: "samples ex_task = map (\<lambda>i. ex_matrix ! i) [0, 1, 2, 3]"
    by (simp add: ex_task_def ex_matrix_def)
  show ?thesis
    by (intro conjI ex_task_lazy ex_read_csv ex_store t e1 e2)
qed

section \<open>Materialization: when it completes\<close>

text \<open>
  Claim C2, as stated, fails: materialization does not complete for every task id. A
  task id whose variable is not a column of the table ends in \<open>KeyError\<close>. A task id
  with no retained row (the column \<open>stage\<close> of the example table is empty) ends in
  \<open>ValueError\<close>, raised by the unpacking of
  \<^verbatim>\<open>zip(*sorted(zip(indices_to_load, self._labels)))\<close> into two names.
\<close>

theorem materialization_fails_counterexample:
  "TCGATask_init (''age'', ''CANCER'') ex_dir ex_preloaded = Inl KeyError
   \<and> retained_rows ex_table ex_sample_ids ''stage'' = []
   \<and> TCGATask_init (''stage'', ''CANCER'') ex_dir ex_preloaded = Inl ValueError
   \<and> TCGATask_init (''stage'', ''CANCER'') ex_dir None = Inl ValueError"
proof (intro conjI)
  show "TCGATask_init (''age'', ''CANCER'') ex_dir ex_preloaded = Inl KeyError"
    by code_simp
  show "retained_rows ex_table ex_sample_ids ''stage'' = []"
    by (simp add: retained_rows_def ex_table_def)
  show "TCGATask_init (''stage'', ''CANCER'') ex_dir ex_preloaded = Inl ValueError"
    by code_simp
  show "TCGATask_init (''stage'', ''CANCER'') ex_dir None = Inl ValueError"
    by code_simp
qed

text \<open>
  Claim C2, amended. Let the sample id list, the clinical table of the cancer type and
  the expression store be readable (and the gene id file too when nothing is
  preloaded), let the table have the columns \<open>sampleID\<close> and \<open>v\<close>, let the store have a
  row for every listed sample id, and let at least one row be retained (on the lazy
  path, no sample id retained twice). Then materialization returns a task, in the
  catalog or not, and the length of the task is the number of retained rows. The
  example task \<open>one_task\<close> has a single class and is in no catalog.
\<close>

theorem materialization_completes:
  assumes src: "sample_id_list dd pre = Some all_ids"
    and genes: "pre = None \<longrightarrow> gene_ids_file dd \<noteq> None"
    and csv: "read_csv dd (c @ ''_clinicalMatrix'') = Inr m"
    and cols: "v \<in> set (df_columns m)" "''sampleID'' \<in> set (df_columns m)"
    and store: "expression_store dd pre = Some d"
    and rows: "length all_ids \<le> length d"
    and kept: "retained_rows m all_ids v \<noteq> []"
    and lazy: "pre = None \<longrightarrow> distinct (map (\<lambda>r. r ''sampleID'') (retained_rows m all_ids v))"
  shows "\<exists>t. TCGATask_init (v, c) dd pre = Inr t
           \<and> TCGATask_len t = length (retained_rows m all_ids v)
           \<and> length (labels t) = length (retained_rows m all_ids v)
           \<and> num_classes t = length (categories t)"
proof -
  from TCGATask_init_total [OF assms] obtain t where t: "TCGATask_init (v, c) dd pre = Inr t"
    by blast
  from TCGATask_init_Inr [OF t csv] src have a: "all_sample_ids t = all_ids"
    by auto
  note sz = task_sizes [OF t csv]
  have "TCGATask_len t = length (retained_rows m all_ids v)"
    using sz(2) by (simp add: TCGATask_len_def a)
  moreover have "length (labels t) = length (retained_rows m all_ids v)"
    using sz(1) by (simp add: a)
  ultimately show ?thesis
    using t sz(3) by blast
qed

theorem materialization_completes_witness:
  "sample_id_list ex_dir None = Some ex_sample_ids
   \<and> gene_ids_file ex_dir \<noteq> None
   \<and> read_csv ex_dir (''ONE'' @ ''_clinicalMatrix'') = Inr one_table
   \<and> ''sex'' \<in> set (df_columns one_table) \<and> ''sampleID'' \<in> set (df_columns one_table)
   \<and> expression_store ex_dir None = Some ex_matrix
   \<and> length ex_sample_ids \<le> length ex_matrix
   \<and> retained_rows one_table ex_sample_ids ''sex'' \<noteq> []
   \<and> distinct (map (\<lambda>r. r ''sampleID'') (retained_rows one_table ex_sample_ids ''sex''))
   \<and> (\<exists>t. TCGATask_init (''sex'', ''ONE'') ex_dir None = Inr t
           \<and> TCGATask_len t = length (retained_rows one_table ex_sample_ids ''sex'')
           \<and> length (labels t) = length (retained_rows one_table ex_sample_ids ''sex'')
           \<and> num_classes t = length (categories t))
   \<and> TCGATask_init (''sex'', ''ONE'') ex_dir None = Inr one_task
   \<and> num_classes one_task = 1
   \<and> get_TCGA_task_ids ex_dir 1 (Some ex_variables) = Inr [(''sex'', ''CANCER'')]
   \<and> (''sex'', ''ONE'') \<notin> set [(''sex'', ''CANCER'')]"
proof -
  have h1: "sample_id_list ex_dir None = Some ex_sample_ids"
    by (simp add: sample_id_list_def ex_dir_def)
  have h2: "gene_ids_file ex_dir \<noteq> None"
    by (simp add: ex_dir_def)
  have h3: "read_csv ex_dir (''ONE'' @ ''_clinicalMatrix'') = Inr one_table"
    by (simp add: read_csv_def ex_dir_def ex_listing_def)
  have h4: "length ex_sample_ids \<le> length ex_matrix"
    by (simp add: ex_sample_ids_def ex_matrix_def)
  have h5: "retained_rows one_table ex_sample_ids ''sex'' \<noteq> []"
    by (simp add: retained_rows_def one_table_def ex_sample_ids_def)
  have h6: "distinct (map (\<lambda>r. r ''sampleID'') (retained_rows one_table ex_sample_ids ''sex''))"
    by (simp add: retained_rows_def one_table_def ex_sample_ids_def)
  have e1: "TCGATask_init (''sex'', ''ONE'') ex_dir None = Inr one_task"
    by code_simp
  have e2: "num_classes one_task = 1"
    by (simp add: one_task_def)
  have e3: "(''sex'', ''ONE'') \<notin> set [(''sex'', ''CANCER'')]"
    by simp
  note t = materialization_completes [OF h1 impI [OF h2] h3 one_table_columns ex_store h4 h5
      impI [OF h6]]
  show ?thesis
    by (intro conjI h1 h2 h3 one_table_columns ex_store h4 h5 h6 t e1 e2 ex_catalog_1 e3)
qed

section \<open>Materialization: the preloaded and the lazy read\<close>

text \<open>
  Whenever the lazy path returns a task, the preloaded path returns the same task from
  the same data.
\<close>

lemma preloaded_agrees_with_lazy:
  assumes "TCGATask_init tid dd None = Inr t"
    and "gene_ids_file dd = Some g" and "all_sample_ids_file dd = Some a" and "hdf_file dd = Some d"
  shows "TCGATask_init tid dd (Some (a, g, d)) = Inr t"
  using assms
  by (cases tid)
    (auto simp: TCGATask_init_def and_then_eq_Inr Let_def getitem_eq_Inr retained_mask
      h5py_take_eq_Inr numpy_take_eq_Inr)

text \<open>
  Claim C3 says that the preloaded read and the lazy read give identical features and
  labels for the same task id. They differ when a sample id is retained on two rows of
  the clinical table: the sorted positions then repeat, the in-memory array returns
  the row twice, and the read of the HDF5 file raises \<open>TypeError\<close>, since h5py takes
  an index list only in strictly increasing order.
\<close>

theorem lazy_and_preloaded_differ:
  "gene_ids_file ex_dir = Some [''g1'', ''g2'']
   \<and> all_sample_ids_file ex_dir = Some ex_sample_ids
   \<and> hdf_file ex_dir = Some ex_matrix
   \<and> TCGATask_init (''sex'', ''DUP'') ex_dir (Some (ex_sample_ids, [''g1'', ''g2''], ex_matrix)) = Inr dup_task
   \<and> TCGATask_init (''sex'', ''DUP'') ex_dir None = Inl TypeError
   \<and> numpy_take ex_matrix [0, 0, 1] = Inr [[10, 11], [10, 11], [20, 21]]
   \<and> h5py_take ex_matrix [0, 0, 1] = Inl TypeError"
proof (intro conjI)
  show "numpy_take ex_matrix [0, 0, 1] = Inr [[10, 11], [10, 11], [20, 21]]"
    by code_simp
  show "h5py_take ex_matrix [0, 0, 1] = Inl TypeError"
    by code_simp
  show "gene_ids_file ex_dir = Some [''g1'', ''g2'']" "all_sample_ids_file ex_dir = Some ex_sample_ids"
    "hdf_file ex_dir = Some ex_matrix"
    by (simp_all add: ex_dir_def)
  show "TCGATask_init (''sex'', ''DUP'') ex_dir (Some (ex_sample_ids, [''g1'', ''g2''], ex_matrix)) = Inr dup_task"
    by code_simp
  show "TCGATask_init (''sex'', ''DUP'') ex_dir None = Inl TypeError"
    by code_simp
qed


end
